theory Spec2Isabelle
  imports Complex_Main "HOL-Library.Word"
begin

unbundle bit_operations_syntax

section \<open>The sensors module of the flight controller (sensors.c)\<close>

text \<open>
  The development embeds \<^verbatim>\<open>SensorsTask\<close>, \<^verbatim>\<open>sensorsUpdatedCb\<close> and
  \<^verbatim>\<open>settingsUpdatedCb\<close> of \<^verbatim>\<open>flight/Modules/Sensors/sensors.c\<close>.
  The drivers, the RTOS and the UAVObjects are not part of the file: what they return is
  an input of the model, and every call the task makes on them is an entry of an effect
  trace, in program order.
\<close>

subsection \<open>C floats under real-number semantics\<close>

text \<open>
  A \<^verbatim>\<open>float\<close> is a real number or a non-finite value (an infinity or a NaN, not told
  apart). Rounding and overflow of finite values are not modelled. The task only adds,
  subtracts, negates and multiplies floats and divides them by converted integers; in
  IEEE arithmetic a non-finite operand of these operations gives a non-finite result, and
  a division by zero gives a non-finite result.
\<close>

datatype cfloat = Finite real | NonFinite

instantiation cfloat :: "{plus, minus, uminus, times}"
begin

definition plus_cfloat :: "cfloat \<Rightarrow> cfloat \<Rightarrow> cfloat" where
  "a + b = (case a of NonFinite \<Rightarrow> NonFinite
            | Finite x \<Rightarrow> (case b of NonFinite \<Rightarrow> NonFinite | Finite y \<Rightarrow> Finite (x + y)))"

definition minus_cfloat :: "cfloat \<Rightarrow> cfloat \<Rightarrow> cfloat" where
  "a - b = (case a of NonFinite \<Rightarrow> NonFinite
            | Finite x \<Rightarrow> (case b of NonFinite \<Rightarrow> NonFinite | Finite y \<Rightarrow> Finite (x - y)))"

definition uminus_cfloat :: "cfloat \<Rightarrow> cfloat" where
  "- a = (case a of NonFinite \<Rightarrow> NonFinite | Finite x \<Rightarrow> Finite (- x))"

definition times_cfloat :: "cfloat \<Rightarrow> cfloat \<Rightarrow> cfloat" where
  "a * b = (case a of NonFinite \<Rightarrow> NonFinite
            | Finite x \<Rightarrow> (case b of NonFinite \<Rightarrow> NonFinite | Finite y \<Rightarrow> Finite (x * y)))"

instance ..

end

text \<open>The C operator \<^verbatim>\<open>/\<close> on floats.\<close>

definition fdiv :: "cfloat \<Rightarrow> cfloat \<Rightarrow> cfloat" where
  "fdiv a b = (case a of NonFinite \<Rightarrow> NonFinite
               | Finite x \<Rightarrow> (case b of NonFinite \<Rightarrow> NonFinite
                              | Finite y \<Rightarrow> if y = 0 then NonFinite else Finite (x / y)))"

text \<open>Conversions to float: of an \<^verbatim>\<open>int32_t\<close>, of a \<^verbatim>\<open>uint32_t\<close>, of a narrower
  integer given by its value.\<close>

definition float_of_int32 :: "32 word \<Rightarrow> cfloat" where
  "float_of_int32 w = Finite (real_of_int (sint w))"

definition float_of_uint32 :: "32 word \<Rightarrow> cfloat" where
  "float_of_uint32 w = Finite (real (unat w))"

definition float_of_int :: "int \<Rightarrow> cfloat" where
  "float_of_int i = Finite (real_of_int i)"

subsection \<open>Build configuration, driver data, objects\<close>

text \<open>
  The preprocessor symbols the task tests. \<^verbatim>\<open>portTICK_RATE_MS\<close> is the RTOS port's
  constant, and \<^verbatim>\<open>portTickType\<close> its tick type, taken as the 32-bit unsigned type of
  the port. The task's own comment lists three supported builds: BMA180 accel with
  MPU6000 gyro, MPU6000 gyro and accel, BMA180 accel with L3GD20 gyro.
\<close>

record build =
  PIOS_INCLUDE_MPU6000 :: bool
  PIOS_INCLUDE_L3GD20 :: bool
  PIOS_INCLUDE_BMA180 :: bool
  PIOS_MPU6000_ACCEL :: bool
  BMA180 :: bool
  portTICK_RATE_MS :: nat

definition SENSOR_PERIOD :: nat where
  "SENSOR_PERIOD = 2"

type_synonym portTickType = "32 word"

text \<open>
  The driver structs, with the fields the task reads; an integer field is given by its
  value (the structs are declared in the drivers' headers).
\<close>

record pios_bma180_data =
  bma180_x :: int
  bma180_y :: int
  bma180_z :: int
  bma180_temperature :: int

record pios_mpu6000_data =
  mpu6000_gyro_x :: int
  mpu6000_gyro_y :: int
  mpu6000_gyro_z :: int
  mpu6000_accel_x :: int
  mpu6000_accel_y :: int
  mpu6000_accel_z :: int
  mpu6000_temperature :: int

record pios_l3gd20_data =
  l3gd20_gyro_x :: int
  l3gd20_gyro_y :: int
  l3gd20_gyro_z :: int
  l3gd20_temperature :: int

record AccelsData =
  accels_x :: cfloat
  accels_y :: cfloat
  accels_z :: cfloat
  accels_temperature :: cfloat

record GyrosData =
  gyros_x :: cfloat
  gyros_y :: cfloat
  gyros_z :: cfloat
  gyros_temperature :: cfloat

record MagnetometerData =
  magnetometer_x :: cfloat
  magnetometer_y :: cfloat
  magnetometer_z :: cfloat

type_synonym float3 = "cfloat \<times> cfloat \<times> cfloat"
type_synonym int32x3 = "32 word \<times> 32 word \<times> 32 word"

text \<open>
  A telemetry frame is the sequence of what \<^verbatim>\<open>memcpy\<close> and the byte stores put into
  \<^verbatim>\<open>message\<close>: single bytes and 4-byte floats (whose byte encoding is not modelled).
  The GPS and altitude objects are copied as their bytes.
\<close>

datatype frame_item = Byte "8 word" | Float32 cfloat

datatype uavobject = GPSPosition | BaroAltitude | RevoCalibration

text \<open>The calls the task makes on its collaborators.\<close>

datatype effect =
    AlarmsClear
  | AlarmsSetCritical
  | PIOS_WDG_UpdateFlag
  | vTaskDelay nat
  | vTaskDelayUntil nat
  | ConnectCallback uavobject
  | PIOS_BMA180_ReadAccels
  | AccelsSet AccelsData
  | GyrosSet GyrosData
  | MagnetometerSet MagnetometerData
  | PIOS_COM_SendBufferNonBlocking "frame_item list"

text \<open>
  The variables that live across iterations of the main loop: the file's statics, the
  task's \<^verbatim>\<open>error\<close> and \<^verbatim>\<open>lastSysTime\<close>, and the global \<^verbatim>\<open>pios_com_aux_id\<close>.
\<close>

record sensors =
  error :: bool
  lastSysTime :: portTickType
  gps_updated :: bool
  baro_updated :: bool
  bias_correct_gyro :: bool
  mag_bias :: float3
  mag_scale :: float3
  accel_bias :: float3
  accel_scale :: float3
  pios_com_aux_id :: "32 word"

text \<open>
  What the collaborators return during one iteration of the main loop. Each list holds the
  successive results of one call: \<^verbatim>\<open>xTaskGetTickCount\<close>; \<^verbatim>\<open>PIOS_BMA180_ReadFifo\<close> and
  \<^verbatim>\<open>PIOS_MPU6000_ReadFifo\<close> (\<open>Some d\<close>: returns 0 and stores \<open>d\<close>; \<open>None\<close>: returns
  nonzero and leaves the struct as it was; past the end of the list the FIFO is empty);
  the samples \<^verbatim>\<open>xQueueReceive\<close> delivers before \<^verbatim>\<open>errQUEUE_EMPTY\<close>. The last two
  fields are the indeterminate contents of locals that the task may read before writing.
\<close>

record cycle_input =
  tick_reads :: "portTickType list"
  bma180_fifo :: "pios_bma180_data option list"
  mpu6000_fifo :: "pios_mpu6000_data option list"
  l3gd20_queue :: "pios_l3gd20_data list"
  bma180_scale :: cfloat
  mpu6000_scale :: cfloat
  mpu6000_accel_scale :: cfloat
  l3gd20_scale :: cfloat
  hmc5883_values :: "(int \<times> int \<times> int) option"
  gyrosBias :: float3
  gps_object :: "8 word list"
  baro_object :: "8 word list"
  gyro_temperature_indeterminate :: cfloat
  accelsData_temperature_indeterminate :: cfloat

subsection \<open>Acquisition: the FIFO loops\<close>

text \<open>
  \<^verbatim>\<open>while((read_good = ReadFifo(&buf)) != 0 && !error)
      error = ((xTaskGetTickCount() - lastSysTime) > SENSOR_PERIOD) ? true : error;\<close>
  The result is the last read (\<open>Some d\<close> when \<^verbatim>\<open>read_good == 0\<close>), \<^verbatim>\<open>error\<close>, and the
  rest of the two lists. The loop spins as long as the FIFO is empty and the tick count
  within budget: when the tick readings run out before either happens, there is no result.
\<close>

fun wait_fifo :: "portTickType \<Rightarrow> bool \<Rightarrow> 'a option list \<Rightarrow> portTickType list
    \<Rightarrow> ('a option \<times> bool \<times> 'a option list \<times> portTickType list) option" where
  "wait_fifo t0 err (Some d # rs) ts = Some (Some d, err, rs, ts)"
| "wait_fifo t0 err rs [] = (if err then Some (None, err, tl rs, []) else None)"
| "wait_fifo t0 err rs (t # ts) =
     (if err then Some (None, err, tl rs, t # ts)
      else wait_fifo t0 (if of_nat SENSOR_PERIOD < t - t0 then True else err) (tl rs) ts)"

text \<open>
  \<^verbatim>\<open>while(read_good == 0) { count++; accum += buf; read_good = ReadFifo(&buf); }\<close>
  entered with a sample in \<open>buf\<close>. The result is the sums, the count, the last sample
  stored in the struct and the rest of the reads.
\<close>

fun drain_fifo :: "('a \<Rightarrow> 'acc \<Rightarrow> 'acc) \<Rightarrow> 'acc \<Rightarrow> 32 word \<Rightarrow> 'a \<Rightarrow> 'a option list
    \<Rightarrow> 'acc \<times> 32 word \<times> 'a \<times> 'a option list" where
  "drain_fifo add acc count buf (Some d # rs) = drain_fifo add (add buf acc) (count + 1) d rs"
| "drain_fifo add acc count buf rs = (add buf acc, count + 1, buf, tl rs)"

text \<open>\<^verbatim>\<open>accum[0] += s.x; accum[1] += s.y; accum[2] += s.z;\<close> on \<^verbatim>\<open>int32_t\<close> sums.\<close>

definition accumulate :: "int \<times> int \<times> int \<Rightarrow> int32x3 \<Rightarrow> int32x3" where
  "accumulate v acc = (case v of (x, y, z) \<Rightarrow> (case acc of (a0, a1, a2) \<Rightarrow>
     (a0 + word_of_int x, a1 + word_of_int y, a2 + word_of_int z)))"

definition bma180_xyz :: "pios_bma180_data \<Rightarrow> int \<times> int \<times> int" where
  "bma180_xyz d = (bma180_x d, bma180_y d, bma180_z d)"

definition mpu6000_gyro_xyz :: "pios_mpu6000_data \<Rightarrow> int \<times> int \<times> int" where
  "mpu6000_gyro_xyz d = (mpu6000_gyro_x d, mpu6000_gyro_y d, mpu6000_gyro_z d)"

definition mpu6000_accel_xyz :: "pios_mpu6000_data \<Rightarrow> int \<times> int \<times> int" where
  "mpu6000_accel_xyz d = (mpu6000_accel_x d, mpu6000_accel_y d, mpu6000_accel_z d)"

definition l3gd20_gyro_xyz :: "pios_l3gd20_data \<Rightarrow> int \<times> int \<times> int" where
  "l3gd20_gyro_xyz d = (l3gd20_gyro_x d, l3gd20_gyro_y d, l3gd20_gyro_z d)"

text \<open>The locals of the loop body after the acquisition, as the rest of the body reads
  them. \<open>accel\<close> is the BMA180 struct when a read has stored into it;
  \<open>gyro_temperature\<close> is the value of \<^verbatim>\<open>(float) gyro.temperature\<close>.\<close>

record locals =
  accel_accum :: int32x3
  gyro_accum :: int32x3
  accel_samples :: "32 word"
  gyro_samples :: "32 word"
  gyro_scaling :: cfloat
  accel :: "pios_bma180_data option"
  gyro_temperature :: cfloat

text \<open>
  Lines 216 to 241, compiled unless \<^verbatim>\<open>PIOS_MPU6000_ACCEL\<close> is defined. \<open>Inl\<close> is the
  \<^verbatim>\<open>continue\<close> after a timeout, with the forced read that restarts the BMA180.
\<close>

definition bma180_section :: "build \<Rightarrow> sensors \<Rightarrow> cycle_input \<Rightarrow> portTickType list
    \<Rightarrow> (effect list + (int32x3 \<times> 32 word \<times> pios_bma180_data option \<times> portTickType list)) option" where
  "bma180_section cfg s inp ts =
     (if PIOS_MPU6000_ACCEL cfg then Some (Inr ((0, 0, 0), 0, None, ts))
      else case wait_fifo (lastSysTime s) (error s) (bma180_fifo inp) ts of
        None \<Rightarrow> None
      | Some (read_good, err, rs, ts') \<Rightarrow>
          if err then Some (Inl [PIOS_BMA180_ReadAccels])
          else (case read_good of
                  None \<Rightarrow> Some (Inr ((0, 0, 0), 0, None, ts'))
                | Some d \<Rightarrow>
                    (case drain_fifo (\<lambda>b. accumulate (bma180_xyz b)) (0, 0, 0) 0 d rs of
                       (acc, count, buf, rs') \<Rightarrow> Some (Inr (acc, count, Some buf, ts')))))"

text \<open>
  Lines 244 to 294: the gyro, and the accel when it is the MPU6000's. \<open>Inl\<close> is the
  \<^verbatim>\<open>continue\<close> after a timeout of the MPU6000.
\<close>

definition mpu6000_accumulate :: "build \<Rightarrow> pios_mpu6000_data \<Rightarrow> int32x3 \<times> int32x3
    \<Rightarrow> int32x3 \<times> int32x3" where
  "mpu6000_accumulate cfg d acc = (case acc of (g, a) \<Rightarrow>
     (accumulate (mpu6000_gyro_xyz d) g,
      if PIOS_MPU6000_ACCEL cfg then accumulate (mpu6000_accel_xyz d) a else a))"

definition gyro_section :: "build \<Rightarrow> sensors \<Rightarrow> cycle_input
    \<Rightarrow> int32x3 \<times> 32 word \<times> pios_bma180_data option \<times> portTickType list
    \<Rightarrow> (effect list + locals) option" where
  "gyro_section cfg s inp a = (case a of (aacc, asamples, abuf, ts) \<Rightarrow>
     if PIOS_INCLUDE_MPU6000 cfg then
       (case wait_fifo (lastSysTime s) (error s) (mpu6000_fifo inp) ts of
          None \<Rightarrow> None
        | Some (read_good, err, rs, ts') \<Rightarrow>
            if err then Some (Inl [])
            else (case (case read_good of
                          None \<Rightarrow> (((0, 0, 0), aacc), 0, gyro_temperature_indeterminate inp)
                        | Some d \<Rightarrow>
                            (case drain_fifo (mpu6000_accumulate cfg) ((0, 0, 0), aacc) 0 d rs of
                               (acc, count, buf, rs') \<Rightarrow>
                                 (acc, count, float_of_int (mpu6000_temperature buf)))) of
                    ((gacc, aacc'), count, temp) \<Rightarrow>
                      Some (Inr \<lparr>accel_accum = aacc', gyro_accum = gacc,
                        accel_samples = (if PIOS_MPU6000_ACCEL cfg then count else asamples),
                        gyro_samples = count, gyro_scaling = mpu6000_scale inp,
                        accel = abuf, gyro_temperature = temp\<rparr>)))
     else if PIOS_INCLUDE_L3GD20 cfg then
       Some (Inr \<lparr>accel_accum = aacc,
         gyro_accum = foldl (\<lambda>acc d. accumulate (l3gd20_gyro_xyz d) acc) (0, 0, 0) (l3gd20_queue inp),
         accel_samples = asamples,
         gyro_samples = foldl (\<lambda>n d. n + 1) 0 (l3gd20_queue inp),
         gyro_scaling = l3gd20_scale inp, accel = abuf,
         gyro_temperature = (case l3gd20_queue inp of
             [] \<Rightarrow> gyro_temperature_indeterminate inp
           | d # ds \<Rightarrow> float_of_int (l3gd20_temperature (last (d # ds))))\<rparr>)
     else
       Some (Inr \<lparr>accel_accum = aacc, gyro_accum = (0, 0, 0), accel_samples = asamples,
         gyro_samples = 1, gyro_scaling = Finite 0, accel = abuf,
         gyro_temperature = gyro_temperature_indeterminate inp\<rparr>))"


subsection \<open>Scaling, calibration and publication\<close>

text \<open>Line 295: the averaged accel sums, with the channels swapped.\<close>

definition accels :: "locals \<Rightarrow> float3" where
  "accels l = (case accel_accum l of (a0, a1, a2) \<Rightarrow>
     (fdiv (float_of_int32 a1) (float_of_uint32 (accel_samples l)),
      fdiv (float_of_int32 a0) (float_of_uint32 (accel_samples l)),
      fdiv (- float_of_int32 a2) (float_of_uint32 (accel_samples l))))"

text \<open>Lines 298 to 302: the physical scale factor of the accel in use.\<close>

definition accel_scaling :: "build \<Rightarrow> cycle_input \<Rightarrow> cfloat" where
  "accel_scaling cfg inp =
     (if PIOS_MPU6000_ACCEL cfg then mpu6000_accel_scale inp else bma180_scale inp)"

text \<open>
  Lines 303 to 313. \<^verbatim>\<open>accelsData.temperature = AccelsSet(&accelsData);\<close> publishes the
  struct first and stores the call's result into the local afterwards, so the published
  temperature is what lines 307 to 311 left: one of the two formulas, or the local's
  indeterminate content when neither \<^verbatim>\<open>BMA180\<close> nor \<^verbatim>\<open>PIOS_MPU6000_ACCEL\<close> is
  defined. (With both defined \<^verbatim>\<open>accel\<close> is not declared and the file does not compile.)
\<close>

definition accelsData :: "build \<Rightarrow> cycle_input \<Rightarrow> sensors \<Rightarrow> locals \<Rightarrow> AccelsData" where
  "accelsData cfg inp s l =
     (case accels l of (k0, k1, k2) \<Rightarrow>
      case accel_scale s of (s0, s1, s2) \<Rightarrow>
      case accel_bias s of (b0, b1, b2) \<Rightarrow>
         \<lparr>accels_x = k0 * accel_scaling cfg inp * s0 - b0,
          accels_y = k1 * accel_scaling cfg inp * s1 - b1,
          accels_z = k2 * accel_scaling cfg inp * s2 - b2,
          accels_temperature =
            (if BMA180 cfg then
               (case accel l of
                  Some d \<Rightarrow> Finite 25 + fdiv (float_of_int (bma180_temperature d) - Finite 2) (Finite 2)
                | None \<Rightarrow> accelsData_temperature_indeterminate inp)
             else if PIOS_MPU6000_ACCEL cfg then
               Finite 35 + fdiv (gyro_temperature l + Finite 512) (Finite 340)
             else accelsData_temperature_indeterminate inp)\<rparr>)"

text \<open>Line 315.\<close>

definition gyros :: "locals \<Rightarrow> float3" where
  "gyros l = (case gyro_accum l of (g0, g1, g2) \<Rightarrow>
     (fdiv (float_of_int32 g1) (float_of_uint32 (gyro_samples l)),
      fdiv (float_of_int32 g0) (float_of_uint32 (gyro_samples l)),
      fdiv (- float_of_int32 g2) (float_of_uint32 (gyro_samples l))))"

text \<open>Lines 317 to 333; \<open>bias\<close> is what \<^verbatim>\<open>GyrosBiasGet\<close> returns.\<close>

definition gyrosData :: "build \<Rightarrow> cycle_input \<Rightarrow> sensors \<Rightarrow> locals \<Rightarrow> GyrosData" where
  "gyrosData cfg inp s l =
     (case gyros l of (k0, k1, k2) \<Rightarrow>
      case gyrosBias inp of (bx, by, bz) \<Rightarrow>
      let x = k0 * gyro_scaling l;
          y = k1 * gyro_scaling l;
          z = k2 * gyro_scaling l;
          temperature =
            (if PIOS_INCLUDE_MPU6000 cfg
             then Finite 35 + fdiv (gyro_temperature l + Finite 512) (Finite 340)
             else gyro_temperature l)
      in if bias_correct_gyro s
         then \<lparr>gyros_x = x + bx, gyros_y = y + by, gyros_z = z + bz,
               gyros_temperature = temperature\<rparr>
         else \<lparr>gyros_x = x, gyros_y = y, gyros_z = z, gyros_temperature = temperature\<rparr>)"

text \<open>Lines 345 to 347, on the three \<^verbatim>\<open>int16_t\<close> values of \<^verbatim>\<open>PIOS_HMC5883_ReadMag\<close>.\<close>

definition mag :: "sensors \<Rightarrow> int \<times> int \<times> int \<Rightarrow> MagnetometerData" where
  "mag s values = (case values of (v0, v1, v2) \<Rightarrow>
     case mag_scale s of (s0, s1, s2) \<Rightarrow>
     case mag_bias s of (b0, b1, b2) \<Rightarrow>
     \<lparr>magnetometer_x = float_of_int v1 * s0 - b0,
      magnetometer_y = float_of_int v0 * s1 - b1,
      magnetometer_z = float_of_int (- v2) * s2 - b2\<rparr>)"

text \<open>
  Lines 354 to 390: the buffer handed to the sink. The structs are copied field by field
  in declaration order (x, y, z, then the gyro's temperature). The 200 bytes of
  \<^verbatim>\<open>message\<close> are not a limit of the model.
\<close>

definition message :: "sensors \<Rightarrow> cycle_input \<Rightarrow> AccelsData \<Rightarrow> GyrosData
    \<Rightarrow> MagnetometerData option \<Rightarrow> frame_item list" where
  "message s inp a g m =
     [Byte 0xff, Byte (ucast (drop_bit 8 (lastSysTime s AND 0xff00))),
      Byte (ucast (lastSysTime s AND 0x00ff))]
     @ [Float32 (accels_x a), Float32 (accels_y a), Float32 (accels_z a)]
     @ [Float32 (gyros_x g), Float32 (gyros_y g), Float32 (gyros_z g),
        Float32 (gyros_temperature g)]
     @ (case m of
          None \<Rightarrow> []
        | Some d \<Rightarrow> [Byte 0x01, Float32 (magnetometer_x d), Float32 (magnetometer_y d),
                     Float32 (magnetometer_z d)])
     @ (if gps_updated s then Byte 0x02 # map Byte (gps_object inp) else [])
     @ (if baro_updated s then Byte 0x03 # map Byte (baro_object inp) else [])"

text \<open>Lines 295 to 401: the rest of the loop body once both sections have their samples.\<close>

definition publish :: "build \<Rightarrow> cycle_input \<Rightarrow> sensors \<Rightarrow> locals \<Rightarrow> sensors \<times> effect list" where
  "publish cfg inp s l =
     (let a = accelsData cfg inp s l;
          g = gyrosData cfg inp s l;
          m = map_option (mag s) (hmc5883_values inp);
          sink = (pios_com_aux_id s \<noteq> 0);
          period = (PIOS_INCLUDE_MPU6000 cfg \<and> \<not> PIOS_INCLUDE_L3GD20 cfg);
          increment = SENSOR_PERIOD div portTICK_RATE_MS cfg
      in (s\<lparr>gps_updated := (if sink \<and> gps_updated s then False else gps_updated s),
            baro_updated := (if sink \<and> baro_updated s then False else baro_updated s),
            lastSysTime := (if period then lastSysTime s + of_nat increment else lastSysTime s)\<rparr>,
          [AccelsSet a, GyrosSet g]
          @ (case m of None \<Rightarrow> [] | Some d \<Rightarrow> [MagnetometerSet d])
          @ (if sink then [PIOS_COM_SendBufferNonBlocking (message s inp a g m)] else [])
          @ [PIOS_WDG_UpdateFlag]
          @ (if period then [vTaskDelayUntil increment] else [])))"

subsection \<open>The main loop\<close>

text \<open>
  Lines 195 to 203. \<^verbatim>\<open>vTaskDelayUntil\<close> adds the increment to the wake time it is given.
\<close>

definition loop_top :: "build \<Rightarrow> sensors \<Rightarrow> portTickType list
    \<Rightarrow> (sensors \<times> effect list \<times> portTickType list) option" where
  "loop_top cfg s ts =
     (if error s then
        (case ts of
           [] \<Rightarrow> None
         | t # ts' \<Rightarrow>
             Some (s\<lparr>lastSysTime := t + of_nat (SENSOR_PERIOD div portTICK_RATE_MS cfg),
                     error := False\<rparr>,
                   [PIOS_WDG_UpdateFlag, vTaskDelayUntil (SENSOR_PERIOD div portTICK_RATE_MS cfg),
                    AlarmsSetCritical],
                   ts'))
      else Some (s, [AlarmsClear], ts))"

text \<open>
  One iteration of \<^verbatim>\<open>while (1)\<close>, lines 192 to 402. A \<^verbatim>\<open>continue\<close> leaves
  \<^verbatim>\<open>error\<close> set for the next iteration.
\<close>

definition SensorsTask_loop :: "build \<Rightarrow> cycle_input \<Rightarrow> sensors \<Rightarrow> (sensors \<times> effect list) option" where
  "SensorsTask_loop cfg inp s =
     (case loop_top cfg s (tick_reads inp) of
        None \<Rightarrow> None
      | Some (s1, fx1, ts1) \<Rightarrow>
          (case bma180_section cfg s1 inp ts1 of
             None \<Rightarrow> None
           | Some (Inl fx2) \<Rightarrow> Some (s1\<lparr>error := True\<rparr>, fx1 @ fx2)
           | Some (Inr a) \<Rightarrow>
               (case gyro_section cfg s1 inp a of
                  None \<Rightarrow> None
                | Some (Inl fx3) \<Rightarrow> Some (s1\<lparr>error := True\<rparr>, fx1 @ fx3)
                | Some (Inr l) \<Rightarrow>
                    (case publish cfg inp s1 l of (s2, fx4) \<Rightarrow> Some (s2, fx1 @ fx4)))))"

subsection \<open>Callbacks and startup\<close>

definition sensorsUpdatedCb :: "uavobject \<Rightarrow> sensors \<Rightarrow> sensors" where
  "sensorsUpdatedCb obj s =
     (let s1 = (if obj = GPSPosition then s\<lparr>gps_updated := True\<rparr> else s)
      in if obj = BaroAltitude then s1\<lparr>baro_updated := True\<rparr> else s1)"

record RevoCalibrationData =
  cal_mag_bias :: float3
  cal_mag_scale :: float3
  cal_accel_bias :: float3
  cal_accel_scale :: float3

definition settingsUpdatedCb :: "RevoCalibrationData \<Rightarrow> sensors \<Rightarrow> sensors" where
  "settingsUpdatedCb cal s =
     s\<lparr>mag_bias := cal_mag_bias cal, mag_scale := cal_mag_scale cal,
       accel_bias := cal_accel_bias cal, accel_scale := cal_accel_scale cal\<rparr>"

text \<open>The results of the drivers' self-tests, and the file's statics as initialised.\<close>

record self_tests =
  PIOS_MPU6000_Test :: int
  PIOS_L3GD20_Test :: int
  PIOS_BMA180_Test :: int
  PIOS_HMC5883_Test :: int

definition statics :: "32 word \<Rightarrow> sensors" where
  "statics aux_id =
     \<lparr>error = False, lastSysTime = 0, gps_updated = False, baro_updated = False,
      bias_correct_gyro = True,
      mag_bias = (Finite 0, Finite 0, Finite 0), mag_scale = (Finite 0, Finite 0, Finite 0),
      accel_bias = (Finite 0, Finite 0, Finite 0), accel_scale = (Finite 0, Finite 0, Finite 0),
      pios_com_aux_id = aux_id\<rparr>"

text \<open>
  The task is either in the idle loop of lines 177 to 180 or in the main loop.
\<close>

datatype task = Halted sensors | Running sensors

text \<open>
  Lines 157 to 191. The globals \<^verbatim>\<open>accel_test\<close> and \<^verbatim>\<open>gyro_test\<close> are zero when the
  build assigns them no test; \<open>t0\<close> is the tick count read at line 190.
\<close>

definition gyro_test :: "build \<Rightarrow> self_tests \<Rightarrow> int" where
  "gyro_test cfg tests =
     (if PIOS_INCLUDE_MPU6000 cfg then PIOS_MPU6000_Test tests
      else if PIOS_INCLUDE_L3GD20 cfg then PIOS_L3GD20_Test tests
      else 0)"

definition accel_test :: "build \<Rightarrow> self_tests \<Rightarrow> int" where
  "accel_test cfg tests =
     (if PIOS_INCLUDE_BMA180 cfg then PIOS_BMA180_Test tests
      else if PIOS_INCLUDE_MPU6000 cfg then gyro_test cfg tests
      else 0)"

definition mag_test :: "self_tests \<Rightarrow> int" where
  "mag_test tests = PIOS_HMC5883_Test tests"

definition SensorsTask_start :: "build \<Rightarrow> self_tests \<Rightarrow> RevoCalibrationData \<Rightarrow> portTickType
    \<Rightarrow> sensors \<Rightarrow> task \<times> effect list" where
  "SensorsTask_start cfg tests cal t0 s =
     (let s1 = settingsUpdatedCb cal s
      in if accel_test cfg tests < 0 \<or> gyro_test cfg tests < 0 \<or> mag_test tests < 0
         then (Halted s1, [AlarmsClear, AlarmsSetCritical])
         else (Running (s1\<lparr>lastSysTime := t0, error := False\<rparr>),
               AlarmsClear #
               (if pios_com_aux_id s1 \<noteq> 0
                then [ConnectCallback BaroAltitude, ConnectCallback GPSPosition] else [])))"

text \<open>
  What happens to the task: it runs one iteration of the loop it is in, or one of the two
  callbacks runs (a callback that preempts an iteration is taken before or after it).
  \<^verbatim>\<open>sensorsUpdatedCb\<close> is connected only in the main loop and with a sink; one
  iteration of the idle loop kicks the watchdog and sleeps.
\<close>

datatype event =
    Iteration cycle_input
  | ObjectUpdated uavobject
  | SettingsUpdated RevoCalibrationData

fun SensorsTask_step :: "build \<Rightarrow> event \<Rightarrow> task \<Rightarrow> (task \<times> effect list) option" where
  "SensorsTask_step cfg (Iteration inp) (Halted s) =
     Some (Halted s, [PIOS_WDG_UpdateFlag, vTaskDelay 10])"
| "SensorsTask_step cfg (Iteration inp) (Running s) =
     (case SensorsTask_loop cfg inp s of
        None \<Rightarrow> None
      | Some (s', fx) \<Rightarrow> Some (Running s', fx))"
| "SensorsTask_step cfg (ObjectUpdated obj) (Halted s) = Some (Halted s, [])"
| "SensorsTask_step cfg (ObjectUpdated obj) (Running s) =
     Some (Running (if pios_com_aux_id s \<noteq> 0 then sensorsUpdatedCb obj s else s), [])"
| "SensorsTask_step cfg (SettingsUpdated cal) (Halted s) = Some (Halted (settingsUpdatedCb cal s), [])"
| "SensorsTask_step cfg (SettingsUpdated cal) (Running s) = Some (Running (settingsUpdatedCb cal s), [])"

fun SensorsTask_run :: "build \<Rightarrow> event list \<Rightarrow> task \<Rightarrow> (task \<times> effect list) option" where
  "SensorsTask_run cfg [] t = Some (t, [])"
| "SensorsTask_run cfg (e # es) t =
     (case SensorsTask_step cfg e t of
        None \<Rightarrow> None
      | Some (t1, fx1) \<Rightarrow>
          (case SensorsTask_run cfg es t1 of
             None \<Rightarrow> None
           | Some (t2, fx2) \<Rightarrow> Some (t2, fx1 @ fx2)))"


subsection \<open>The documented axis convention\<close>

text \<open>
  The remap as the specification words it, \<open>(out_x, out_y, out_z) = (raw_y, raw_x, -raw_z)\<close>,
  and a function applied to each axis; both are compared with lines 295, 315 and
  345 to 347 below.
\<close>

definition axis_remap :: "'a::uminus \<times> 'a \<times> 'a \<Rightarrow> 'a \<times> 'a \<times> 'a" where
  "axis_remap v = (case v of (x, y, z) \<Rightarrow> (y, x, - z))"

definition per_axis :: "('a \<Rightarrow> 'b) \<Rightarrow> 'a \<times> 'a \<times> 'a \<Rightarrow> 'b \<times> 'b \<times> 'b" where
  "per_axis f v = (case v of (x, y, z) \<Rightarrow> (f x, f y, f z))"

subsection \<open>Reading a trace\<close>

text \<open>The objects a trace of effects publishes and the frames it sends, in order; the
  number of loop iterations among a sequence of events.\<close>

fun accels_published :: "effect list \<Rightarrow> AccelsData list" where
  "accels_published [] = []"
| "accels_published (AccelsSet a # fx) = a # accels_published fx"
| "accels_published (e # fx) = accels_published fx"

fun gyros_published :: "effect list \<Rightarrow> GyrosData list" where
  "gyros_published [] = []"
| "gyros_published (GyrosSet g # fx) = g # gyros_published fx"
| "gyros_published (e # fx) = gyros_published fx"

fun magnetometer_published :: "effect list \<Rightarrow> MagnetometerData list" where
  "magnetometer_published [] = []"
| "magnetometer_published (MagnetometerSet m # fx) = m # magnetometer_published fx"
| "magnetometer_published (e # fx) = magnetometer_published fx"

fun frames_sent :: "effect list \<Rightarrow> frame_item list list" where
  "frames_sent [] = []"
| "frames_sent (PIOS_COM_SendBufferNonBlocking f # fx) = f # frames_sent fx"
| "frames_sent (e # fx) = frames_sent fx"

fun iterations :: "event list \<Rightarrow> nat" where
  "iterations [] = 0"
| "iterations (Iteration inp # es) = Suc (iterations es)"
| "iterations (e # es) = iterations es"

subsection \<open>Sums that fit the accumulators\<close>

text \<open>The sums are \<^verbatim>\<open>int32_t\<close>: a sum is exact when it lies in the type's range, and
  \<open>N\<close> samples of a vector are summed exactly when all three products do and the count
  fits its 32 bits.\<close>

definition fits_int32 :: "int \<Rightarrow> bool" where
  "fits_int32 i = (- (2 ^ 31) \<le> i \<and> i < 2 ^ 31)"

definition sum_fits :: "nat \<Rightarrow> int \<times> int \<times> int \<Rightarrow> bool" where
  "sum_fits N v = (case v of (x, y, z) \<Rightarrow>
     0 < N \<and> N < 2 ^ 32 \<and> fits_int32 (int N * x) \<and> fits_int32 (int N * y)
     \<and> fits_int32 (int N * z))"

subsection \<open>Builds and inputs for the concrete runs\<close>

text \<open>
  The three builds of the task's comment, each with a 1 ms tick and without the symbol
  \<^verbatim>\<open>BMA180\<close> of line 307: MPU6000 as gyro and accel; BMA180 accel with MPU6000 gyro;
  BMA180 accel with L3GD20 gyro.
\<close>

definition build_mpu6000 :: build where
  "build_mpu6000 = \<lparr>PIOS_INCLUDE_MPU6000 = True, PIOS_INCLUDE_L3GD20 = False,
     PIOS_INCLUDE_BMA180 = False, PIOS_MPU6000_ACCEL = True, BMA180 = False,
     portTICK_RATE_MS = 1\<rparr>"

definition build_bma180_mpu6000 :: build where
  "build_bma180_mpu6000 = \<lparr>PIOS_INCLUDE_MPU6000 = True, PIOS_INCLUDE_L3GD20 = False,
     PIOS_INCLUDE_BMA180 = True, PIOS_MPU6000_ACCEL = False, BMA180 = False,
     portTICK_RATE_MS = 1\<rparr>"

definition build_bma180_l3gd20 :: build where
  "build_bma180_l3gd20 = \<lparr>PIOS_INCLUDE_MPU6000 = False, PIOS_INCLUDE_L3GD20 = True,
     PIOS_INCLUDE_BMA180 = True, PIOS_MPU6000_ACCEL = False, BMA180 = False,
     portTICK_RATE_MS = 1\<rparr>"

text \<open>
  Samples: an MPU6000 sample with gyro \<open>(10, 20, 30)\<close> and accel \<open>(2, 1, -3)\<close>; a BMA180
  sample \<open>(2, 1, -3)\<close>; an L3GD20 sample \<open>(10, 20, 30)\<close>; a BMA180 sample at the negative
  end of a 16-bit axis; the MPU6000 sample of the specification's framing example, which
  scales to accel \<open>[1,1,1]\<close>, gyro \<open>[2,2,2]\<close> and temperature 30.
\<close>

definition mpu6000_sample :: pios_mpu6000_data where
  "mpu6000_sample = \<lparr>mpu6000_gyro_x = 10, mpu6000_gyro_y = 20, mpu6000_gyro_z = 30,
     mpu6000_accel_x = 2, mpu6000_accel_y = 1, mpu6000_accel_z = - 3,
     mpu6000_temperature = 168\<rparr>"

definition bma180_sample :: pios_bma180_data where
  "bma180_sample = \<lparr>bma180_x = 2, bma180_y = 1, bma180_z = - 3, bma180_temperature = 10\<rparr>"

definition l3gd20_sample :: pios_l3gd20_data where
  "l3gd20_sample = \<lparr>l3gd20_gyro_x = 10, l3gd20_gyro_y = 20, l3gd20_gyro_z = 30,
     l3gd20_temperature = 25\<rparr>"

definition bma180_full_scale :: pios_bma180_data where
  "bma180_full_scale = \<lparr>bma180_x = - 32768, bma180_y = 0, bma180_z = 0, bma180_temperature = 0\<rparr>"

definition spec_example_sample :: pios_mpu6000_data where
  "spec_example_sample = \<lparr>mpu6000_gyro_x = 2, mpu6000_gyro_y = 2, mpu6000_gyro_z = - 2,
     mpu6000_accel_x = 1, mpu6000_accel_y = 1, mpu6000_accel_z = - 1,
     mpu6000_temperature = - 2212\<rparr>"

text \<open>
  A calibration with unit scales and zero biases, and the statics after the settings
  callback has stored it; the locals after three samples with sums \<open>(6, 3, -9)\<close> and
  \<open>(30, 60, 90)\<close>; self-test results in which the L3GD20 reports a fault.
\<close>

definition unit_calibration :: RevoCalibrationData where
  "unit_calibration = \<lparr>cal_mag_bias = (Finite 0, Finite 0, Finite 0),
     cal_mag_scale = (Finite 1, Finite 1, Finite 1),
     cal_accel_bias = (Finite 0, Finite 0, Finite 0),
     cal_accel_scale = (Finite 1, Finite 1, Finite 1)\<rparr>"

definition calibrated :: "32 word \<Rightarrow> sensors" where
  "calibrated aux_id = settingsUpdatedCb unit_calibration (statics aux_id)"

definition three_samples :: locals where
  "three_samples = \<lparr>accel_accum = (6, 3, - 9), gyro_accum = (30, 60, 90), accel_samples = 3,
     gyro_samples = 3, gyro_scaling = Finite 1, accel = None, gyro_temperature = Finite 0\<rparr>"

definition l3gd20_fault :: self_tests where
  "l3gd20_fault = \<lparr>PIOS_MPU6000_Test = 0, PIOS_L3GD20_Test = - 1, PIOS_BMA180_Test = 0,
     PIOS_HMC5883_Test = 0\<rparr>"

text \<open>
  Inputs of one iteration: nothing arrives and every scale factor is 1; the MPU6000
  delivers nothing and the tick count read after the failed read is 3; a sample is there
  at once (5 is the tick count read at the top of the loop after an error); the framing
  example; the framing example with a magnetometer reading and a GPS and an altitude
  object of one and two bytes.
\<close>

definition quiet_input :: cycle_input where
  "quiet_input = \<lparr>tick_reads = [], bma180_fifo = [], mpu6000_fifo = [], l3gd20_queue = [],
     bma180_scale = Finite 1, mpu6000_scale = Finite 1, mpu6000_accel_scale = Finite 1,
     l3gd20_scale = Finite 1, hmc5883_values = None,
     gyrosBias = (Finite 0, Finite 0, Finite 0), gps_object = [], baro_object = [],
     gyro_temperature_indeterminate = Finite 0,
     accelsData_temperature_indeterminate = Finite 0\<rparr>"

definition timeout_input :: cycle_input where
  "timeout_input = quiet_input\<lparr>tick_reads := [3]\<rparr>"

definition recovery_input :: cycle_input where
  "recovery_input = quiet_input\<lparr>tick_reads := [5], mpu6000_fifo := [Some mpu6000_sample]\<rparr>"

definition spec_example_input :: cycle_input where
  "spec_example_input = quiet_input\<lparr>mpu6000_fifo := [Some spec_example_sample]\<rparr>"

definition tagged_example_input :: cycle_input where
  "tagged_example_input = spec_example_input\<lparr>hmc5883_values := Some (4, 5, - 6),
     gps_object := [0xAA], baro_object := [0xBB, 0xCC]\<rparr>"

section \<open>Properties\<close>

subsection \<open>Unfolding the model on concrete inputs\<close>

lemmas loop_defs = SensorsTask_loop_def loop_top_def bma180_section_def gyro_section_def
  publish_def accelsData_def accel_scaling_def gyrosData_def accels_def gyros_def mag_def
  message_def mpu6000_accumulate_def accumulate_def bma180_xyz_def mpu6000_gyro_xyz_def
  mpu6000_accel_xyz_def l3gd20_gyro_xyz_def float_of_int32_def float_of_uint32_def
  float_of_int_def SENSOR_PERIOD_def statics_def

lemmas example_defs = build_mpu6000_def build_bma180_mpu6000_def build_bma180_l3gd20_def
  quiet_input_def timeout_input_def recovery_input_def bma180_sample_def mpu6000_sample_def
  l3gd20_sample_def unit_calibration_def calibrated_def settingsUpdatedCb_def

lemmas run_defs = loop_defs example_defs Let_def

lemmas frame_defs = run_defs spec_example_sample_def spec_example_input_def
  tagged_example_input_def

subsection \<open>Float arithmetic and traces\<close>

lemma cfloat_arith [simp]:
  "Finite a + Finite b = Finite (a + b)" "NonFinite + c = NonFinite" "c + NonFinite = NonFinite"
  "Finite a - Finite b = Finite (a - b)" "NonFinite - c = NonFinite" "c - NonFinite = NonFinite"
  "Finite a * Finite b = Finite (a * b)" "NonFinite * c = NonFinite" "c * NonFinite = NonFinite"
  "- Finite a = Finite (- a)" "- NonFinite = NonFinite"
  by (simp_all add: plus_cfloat_def minus_cfloat_def times_cfloat_def uminus_cfloat_def
      split: cfloat.splits)

lemma fdiv_simps [simp]:
  "fdiv (Finite a) (Finite b) = (if b = 0 then NonFinite else Finite (a / b))"
  "fdiv NonFinite c = NonFinite" "fdiv c NonFinite = NonFinite"
  by (simp_all add: fdiv_def split: cfloat.splits)

lemma cfloat_neg_neg: "- (- (c::cfloat)) = c"
  by (cases c) simp_all

lemma accels_published_append [simp]:
  "accels_published (xs @ ys) = accels_published xs @ accels_published ys"
  by (induction xs rule: accels_published.induct) simp_all

lemma gyros_published_append [simp]:
  "gyros_published (xs @ ys) = gyros_published xs @ gyros_published ys"
  by (induction xs rule: gyros_published.induct) simp_all

lemma magnetometer_published_append [simp]:
  "magnetometer_published (xs @ ys) = magnetometer_published xs @ magnetometer_published ys"
  by (induction xs rule: magnetometer_published.induct) simp_all

lemma frames_sent_append [simp]:
  "frames_sent (xs @ ys) = frames_sent xs @ frames_sent ys"
  by (induction xs rule: frames_sent.induct) simp_all

lemma loop_top_Some:
  assumes "loop_top cfg s ts = Some (s1, fx1, ts1)"
  shows "\<not> error s1"
    and "gps_updated s1 = gps_updated s" and "baro_updated s1 = baro_updated s"
    and "pios_com_aux_id s1 = pios_com_aux_id s"
    and "bias_correct_gyro s1 = bias_correct_gyro s"
    and "accel_bias s1 = accel_bias s" and "accel_scale s1 = accel_scale s"
    and "mag_bias s1 = mag_bias s" and "mag_scale s1 = mag_scale s"
    and "error s \<Longrightarrow> fx1 = [PIOS_WDG_UpdateFlag,
           vTaskDelayUntil (SENSOR_PERIOD div portTICK_RATE_MS cfg), AlarmsSetCritical]"
    and "\<not> error s \<Longrightarrow> fx1 = [AlarmsClear] \<and> s1 = s \<and> ts1 = ts"
  using assms by (auto simp: loop_top_def split: if_splits list.splits)

lemma bma180_section_Inl:
  "bma180_section cfg s inp ts = Some (Inl fx) \<Longrightarrow> fx = [PIOS_BMA180_ReadAccels]"
  by (auto simp: bma180_section_def split: if_splits option.splits prod.splits)

lemma gyro_section_Inl:
  "gyro_section cfg s inp a = Some (Inl fx) \<Longrightarrow> fx = []"
  by (auto simp: gyro_section_def split: if_splits option.splits prod.splits)

lemma publish_error: "publish cfg inp s l = (s', fx) \<Longrightarrow> error s' = error s"
  by (auto simp: publish_def Let_def)

lemma SensorsTask_loop_cases:
  assumes "SensorsTask_loop cfg inp s = Some (s', fx)"
  obtains (abandoned) s1 fx1 ts1 fx2 where
      "loop_top cfg s (tick_reads inp) = Some (s1, fx1, ts1)"
      "s' = s1\<lparr>error := True\<rparr>" "fx = fx1 @ fx2" "fx2 = [] \<or> fx2 = [PIOS_BMA180_ReadAccels]"
      "error s'"
    | (completed) s1 fx1 ts1 a l fx4 where
      "loop_top cfg s (tick_reads inp) = Some (s1, fx1, ts1)"
      "bma180_section cfg s1 inp ts1 = Some (Inr a)"
      "gyro_section cfg s1 inp a = Some (Inr l)"
      "publish cfg inp s1 l = (s', fx4)" "fx = fx1 @ fx4" "\<not> error s'"
proof -
  from assms obtain s1 fx1 ts1 where top: "loop_top cfg s (tick_reads inp) = Some (s1, fx1, ts1)"
    by (auto simp: SensorsTask_loop_def split: option.splits)
  from assms top obtain r where r: "bma180_section cfg s1 inp ts1 = Some r"
    by (auto simp: SensorsTask_loop_def split: option.splits)
  show thesis
  proof (cases r)
    case (Inl fx2)
    with assms top r have "s' = s1\<lparr>error := True\<rparr>" "fx = fx1 @ fx2"
      by (auto simp: SensorsTask_loop_def)
    moreover from r Inl have "fx2 = [PIOS_BMA180_ReadAccels]"
      by (auto dest: bma180_section_Inl)
    ultimately show thesis using top by (intro abandoned) auto
  next
    case (Inr a)
    from assms top r Inr obtain g where g: "gyro_section cfg s1 inp a = Some g"
      by (auto simp: SensorsTask_loop_def split: option.splits)
    show thesis
    proof (cases g)
      case (Inl fx3)
      with assms top r Inr g have "s' = s1\<lparr>error := True\<rparr>" "fx = fx1 @ fx3"
        by (auto simp: SensorsTask_loop_def)
      moreover from g Inl have "fx3 = []" by (auto dest: gyro_section_Inl)
      ultimately show thesis using top by (intro abandoned) auto
    next
      case Inr': (Inr l)
      obtain s2 fx4 where p: "publish cfg inp s1 l = (s2, fx4)" by (cases "publish cfg inp s1 l")
      with assms top r Inr g Inr' have "s' = s2" "fx = fx1 @ fx4"
        by (auto simp: SensorsTask_loop_def)
      moreover have "\<not> error s2" using publish_error [OF p] loop_top_Some(1) [OF top] by simp
      ultimately show thesis using top r Inr g Inr' p by (intro completed) auto
    qed
  qed
qed

subsection \<open>The axis remap\<close>

text \<open>
  C4. The accel and gyro means of lines 295 and 315 and the magnetometer values of lines
  345 to 347 are the documented remap of the raw axes, \<open>(x, y, z)\<close> to \<open>(y, x, -z)\<close>,
  and the remap applied twice gives back the vector it started from.
\<close>

theorem axis_remap_involution:
  "accels l = per_axis (\<lambda>a. fdiv a (float_of_uint32 (accel_samples l)))
                (axis_remap (per_axis float_of_int32 (accel_accum l)))
   \<and> gyros l = per_axis (\<lambda>g. fdiv g (float_of_uint32 (gyro_samples l)))
                (axis_remap (per_axis float_of_int32 (gyro_accum l)))
   \<and> mag s v = (case per_axis float_of_int (axis_remap v) of (k0, k1, k2) \<Rightarrow>
                case mag_scale s of (s0, s1, s2) \<Rightarrow>
                case mag_bias s of (b0, b1, b2) \<Rightarrow>
                \<lparr>magnetometer_x = k0 * s0 - b0, magnetometer_y = k1 * s1 - b1,
                 magnetometer_z = k2 * s2 - b2\<rparr>)
   \<and> axis_remap (x, y, z) = (y, x, - z)
   \<and> axis_remap (axis_remap (w :: float3)) = w
   \<and> axis_remap (axis_remap (r :: real \<times> real \<times> real)) = r
   \<and> axis_remap (axis_remap (i :: int \<times> int \<times> int)) = i"
  by (auto simp: accels_def gyros_def mag_def axis_remap_def per_axis_def cfloat_neg_neg
      split: prod.splits)

subsection \<open>Accelerometer calibration\<close>

lemma publish_accels:
  "publish cfg inp s l = (s', fx) \<Longrightarrow> accels_published fx = [accelsData cfg inp s l]"
  by (auto simp: publish_def Let_def split: option.splits)

lemma publish_gyros:
  "publish cfg inp s l = (s', fx) \<Longrightarrow> gyros_published fx = [gyrosData cfg inp s l]"
  by (auto simp: publish_def Let_def split: option.splits)

text \<open>
  C3. Each axis of the one accelerometer measurement that the rest of the loop body
  publishes is \<open>mean * scale_factor * accel_scale[i] - accel_bias[i]\<close> over the remapped
  means; with bias \<open>[1,2,3]\<close>, scale \<open>[1,1,1]\<close>, scale factor 1 and remapped means
  \<open>[1,2,3]\<close> the published \<open>(x, y, z)\<close> is \<open>[0,0,0]\<close>.
\<close>

theorem accel_calibration:
  assumes "publish cfg inp s l = (s', fx)"
    and "accels l = (k0, k1, k2)"
    and "accel_scale s = (s0, s1, s2)"
    and "accel_bias s = (b0, b1, b2)"
  shows "\<exists>a. accels_published fx = [a]
     \<and> accels_x a = k0 * accel_scaling cfg inp * s0 - b0
     \<and> accels_y a = k1 * accel_scaling cfg inp * s1 - b1
     \<and> accels_z a = k2 * accel_scaling cfg inp * s2 - b2
     \<and> ((k0, k1, k2) = (Finite 1, Finite 2, Finite 3) \<and> accel_scaling cfg inp = Finite 1
          \<and> (s0, s1, s2) = (Finite 1, Finite 1, Finite 1)
          \<and> (b0, b1, b2) = (Finite 1, Finite 2, Finite 3)
        \<longrightarrow> (accels_x a, accels_y a, accels_z a) = (Finite 0, Finite 0, Finite 0))"
proof -
  let ?a = "accelsData cfg inp s l"
  have "accels_published fx = [?a]" using assms(1) by (rule publish_accels)
  moreover have "accels_x ?a = k0 * accel_scaling cfg inp * s0 - b0"
    "accels_y ?a = k1 * accel_scaling cfg inp * s1 - b1"
    "accels_z ?a = k2 * accel_scaling cfg inp * s2 - b2"
    using assms(2-4) by (simp_all add: accelsData_def accel_scaling_def Let_def)
  ultimately show ?thesis by auto
qed

theorem accel_calibration_witness:
  "\<exists>a. accels_published (snd (publish build_mpu6000 quiet_input
          ((statics 0)\<lparr>accel_bias := (Finite 1, Finite 2, Finite 3),
                        accel_scale := (Finite 1, Finite 1, Finite 1)\<rparr>)
          \<lparr>accel_accum = (2, 1, - 3), gyro_accum = (0, 0, 0), accel_samples = 1,
           gyro_samples = 1, gyro_scaling = Finite 1, accel = None,
           gyro_temperature = Finite 0\<rparr>)) = [a]
     \<and> (accels_x a, accels_y a, accels_z a) = (Finite 0, Finite 0, Finite 0)"
proof -
  let ?s = "(statics 0)\<lparr>accel_bias := (Finite 1, Finite 2, Finite 3),
                        accel_scale := (Finite 1, Finite 1, Finite 1)\<rparr>"
  let ?l = "\<lparr>accel_accum = (2, 1, - 3), gyro_accum = (0, 0, 0), accel_samples = 1,
           gyro_samples = 1, gyro_scaling = Finite 1, accel = None,
           gyro_temperature = Finite 0\<rparr>"
  have 1: "publish build_mpu6000 quiet_input ?s ?l
      = (fst (publish build_mpu6000 quiet_input ?s ?l), snd (publish build_mpu6000 quiet_input ?s ?l))"
    by simp
  have 2: "accels ?l = (Finite 1, Finite 2, Finite 3)"
    by (simp add: accels_def float_of_int32_def float_of_uint32_def)
  have 3: "accel_scale ?s = (Finite 1, Finite 1, Finite 1)" by simp
  have 4: "accel_bias ?s = (Finite 1, Finite 2, Finite 3)" by simp
  have 5: "accel_scaling build_mpu6000 quiet_input = Finite 1"
    by (simp add: accel_scaling_def build_mpu6000_def quiet_input_def)
  show ?thesis using accel_calibration [OF 1 2 3 4] 5 by auto
qed

subsection \<open>Gyro bias feedback\<close>

lemma bma180_section_gyrosBias:
  "bma180_section cfg s (inp\<lparr>gyrosBias := b\<rparr>) ts = bma180_section cfg s inp ts"
  by (simp add: bma180_section_def cong: if_cong option.case_cong prod.case_cong)

lemma gyro_section_gyrosBias:
  "gyro_section cfg s (inp\<lparr>gyrosBias := b\<rparr>) a = gyro_section cfg s inp a"
  by (simp add: gyro_section_def cong: if_cong option.case_cong prod.case_cong list.case_cong)

lemma accelsData_gyrosBias:
  "accelsData cfg (inp\<lparr>gyrosBias := b\<rparr>) s l = accelsData cfg inp s l"
  by (simp add: accelsData_def accel_scaling_def cong: if_cong option.case_cong prod.case_cong)

lemma message_gyrosBias:
  "message s (inp\<lparr>gyrosBias := b\<rparr>) a g m = message s inp a g m"
  by (simp add: message_def cong: if_cong option.case_cong)

lemma gyrosData_bias_disabled:
  "\<not> bias_correct_gyro s \<Longrightarrow> gyrosData cfg (inp\<lparr>gyrosBias := b\<rparr>) s l = gyrosData cfg inp s l"
  by (simp add: gyrosData_def Let_def split: prod.splits)

lemma publish_bias_disabled:
  "\<not> bias_correct_gyro s \<Longrightarrow> publish cfg (inp\<lparr>gyrosBias := b\<rparr>) s l = publish cfg inp s l"
  by (simp add: publish_def accelsData_gyrosBias message_gyrosBias gyrosData_bias_disabled
      cong: if_cong option.case_cong)

lemma SensorsTask_loop_bias_disabled:
  assumes "\<not> bias_correct_gyro s"
  shows "SensorsTask_loop cfg (inp\<lparr>gyrosBias := b\<rparr>) s = SensorsTask_loop cfg inp s"
proof (cases "loop_top cfg s (tick_reads inp)")
  case None
  then show ?thesis by (simp add: SensorsTask_loop_def)
next
  case (Some r)
  obtain s1 fx1 ts1 where r: "r = (s1, fx1, ts1)" by (cases r)
  have "\<not> bias_correct_gyro s1" using loop_top_Some(5) [OF Some [unfolded r]] assms by simp
  then show ?thesis using Some r
    by (simp add: SensorsTask_loop_def bma180_section_gyrosBias gyro_section_gyrosBias
        publish_bias_disabled cong: option.case_cong sum.case_cong)
qed

lemma gyrosData_bias_enabled:
  assumes "bias_correct_gyro s" and "gyrosBias inp = (ex, ey, ez)"
  shows "gyrosData cfg inp s l =
     \<lparr>gyros_x = gyros_x (gyrosData cfg inp (s\<lparr>bias_correct_gyro := False\<rparr>) l) + ex,
      gyros_y = gyros_y (gyrosData cfg inp (s\<lparr>bias_correct_gyro := False\<rparr>) l) + ey,
      gyros_z = gyros_z (gyrosData cfg inp (s\<lparr>bias_correct_gyro := False\<rparr>) l) + ez,
      gyros_temperature = gyros_temperature (gyrosData cfg inp (s\<lparr>bias_correct_gyro := False\<rparr>) l)\<rparr>"
  using assms by (simp add: gyrosData_def Let_def split: prod.splits)

text \<open>
  C5. With \<^verbatim>\<open>bias_correct_gyro\<close> false, an iteration of the loop does the same whatever
  \<^verbatim>\<open>GyrosBiasGet\<close> returns: same next state, same published objects, same frame. With the
  flag true, the published gyro measurement is the measurement of the disabled case plus
  the bias estimate, axis by axis, with the same temperature.
\<close>

theorem gyro_bias_feedback:
  "(\<not> bias_correct_gyro s \<longrightarrow>
      SensorsTask_loop cfg (inp\<lparr>gyrosBias := b1\<rparr>) s = SensorsTask_loop cfg (inp\<lparr>gyrosBias := b2\<rparr>) s)
   \<and> (bias_correct_gyro s \<and> publish cfg (inp\<lparr>gyrosBias := (ex, ey, ez)\<rparr>) s l = (s', fx) \<longrightarrow>
      gyros_published fx =
        [\<lparr>gyros_x = gyros_x (gyrosData cfg inp (s\<lparr>bias_correct_gyro := False\<rparr>) l) + ex,
          gyros_y = gyros_y (gyrosData cfg inp (s\<lparr>bias_correct_gyro := False\<rparr>) l) + ey,
          gyros_z = gyros_z (gyrosData cfg inp (s\<lparr>bias_correct_gyro := False\<rparr>) l) + ez,
          gyros_temperature =
            gyros_temperature (gyrosData cfg inp (s\<lparr>bias_correct_gyro := False\<rparr>) l)\<rparr>])"
proof (intro conjI impI)
  assume off: "\<not> bias_correct_gyro s"
  show "SensorsTask_loop cfg (inp\<lparr>gyrosBias := b1\<rparr>) s = SensorsTask_loop cfg (inp\<lparr>gyrosBias := b2\<rparr>) s"
    using SensorsTask_loop_bias_disabled [OF off, where cfg = cfg and inp = inp and b = b1]
      SensorsTask_loop_bias_disabled [OF off, where cfg = cfg and inp = inp and b = b2] by simp
next
  assume on: "bias_correct_gyro s \<and> publish cfg (inp\<lparr>gyrosBias := (ex, ey, ez)\<rparr>) s l = (s', fx)"
  let ?inp = "inp\<lparr>gyrosBias := (ex, ey, ez)\<rparr>"
  have "gyros_published fx = [gyrosData cfg ?inp s l]"
    using on by (auto dest: publish_gyros)
  moreover have "gyrosData cfg ?inp (s\<lparr>bias_correct_gyro := False\<rparr>) l
      = gyrosData cfg inp (s\<lparr>bias_correct_gyro := False\<rparr>) l"
    by (rule gyrosData_bias_disabled) simp
  ultimately show "gyros_published fx =
        [\<lparr>gyros_x = gyros_x (gyrosData cfg inp (s\<lparr>bias_correct_gyro := False\<rparr>) l) + ex,
          gyros_y = gyros_y (gyrosData cfg inp (s\<lparr>bias_correct_gyro := False\<rparr>) l) + ey,
          gyros_z = gyros_z (gyrosData cfg inp (s\<lparr>bias_correct_gyro := False\<rparr>) l) + ez,
          gyros_temperature =
            gyros_temperature (gyrosData cfg inp (s\<lparr>bias_correct_gyro := False\<rparr>) l)\<rparr>]"
    using gyrosData_bias_enabled [where s = s and inp = ?inp and cfg = cfg and l = l] on by simp
qed

theorem gyro_bias_feedback_witness:
  "SensorsTask_loop build_mpu6000
     (quiet_input\<lparr>mpu6000_fifo := [Some mpu6000_sample],
        gyrosBias := (Finite 1, Finite 2, Finite 3)\<rparr>)
     ((statics 1)\<lparr>bias_correct_gyro := False\<rparr>)
   = SensorsTask_loop build_mpu6000
     (quiet_input\<lparr>mpu6000_fifo := [Some mpu6000_sample],
        gyrosBias := (Finite 7, Finite 8, Finite 9)\<rparr>)
     ((statics 1)\<lparr>bias_correct_gyro := False\<rparr>)
   \<and> gyros_published (snd (publish build_mpu6000
       (quiet_input\<lparr>gyrosBias := (Finite 1, Finite 2, Finite 3)\<rparr>) (statics 1)
       \<lparr>accel_accum = (0, 0, 0), gyro_accum = (10, 20, 30), accel_samples = 1,
        gyro_samples = 1, gyro_scaling = Finite 1, accel = None,
        gyro_temperature = Finite 168\<rparr>))
     = [\<lparr>gyros_x = Finite 21, gyros_y = Finite 12, gyros_z = Finite (- 27),
         gyros_temperature = Finite 37\<rparr>]"
proof -
  let ?inp = "quiet_input\<lparr>mpu6000_fifo := [Some mpu6000_sample]\<rparr>"
  let ?off = "(statics 1)\<lparr>bias_correct_gyro := False\<rparr>"
  let ?l = "\<lparr>accel_accum = (0, 0, 0), gyro_accum = (10, 20, 30), accel_samples = 1,
        gyro_samples = 1, gyro_scaling = Finite 1, accel = None,
        gyro_temperature = Finite 168\<rparr>"
  let ?on = "quiet_input\<lparr>gyrosBias := (Finite 1, Finite 2, Finite 3)\<rparr>"
  have off: "\<not> bias_correct_gyro ?off" by simp
  have on: "bias_correct_gyro (statics 1)" by (simp add: statics_def)
  have g: "gyrosData build_mpu6000 quiet_input ((statics 1)\<lparr>bias_correct_gyro := False\<rparr>) ?l
      = \<lparr>gyros_x = Finite 20, gyros_y = Finite 10, gyros_z = Finite (- 30),
         gyros_temperature = Finite 37\<rparr>"
    by (simp add: gyrosData_def gyros_def float_of_int32_def float_of_uint32_def
        build_mpu6000_def quiet_input_def statics_def)
  from gyro_bias_feedback [where s = ?off and cfg = build_mpu6000 and inp = ?inp
      and ?b1.0 = "(Finite 1, Finite 2, Finite 3)" and ?b2.0 = "(Finite 7, Finite 8, Finite 9)"] off
  have 1: "SensorsTask_loop build_mpu6000 (?inp\<lparr>gyrosBias := (Finite 1, Finite 2, Finite 3)\<rparr>) ?off
      = SensorsTask_loop build_mpu6000 (?inp\<lparr>gyrosBias := (Finite 7, Finite 8, Finite 9)\<rparr>) ?off"
    by blast
  from gyro_bias_feedback [where s = "statics 1" and cfg = build_mpu6000 and inp = quiet_input
      and ex = "Finite 1" and ey = "Finite 2" and ez = "Finite 3" and l = ?l
      and s' = "fst (publish build_mpu6000 ?on (statics 1) ?l)"
      and fx = "snd (publish build_mpu6000 ?on (statics 1) ?l)"] on
  have 2: "gyros_published (snd (publish build_mpu6000 ?on (statics 1) ?l))
      = [\<lparr>gyros_x = Finite 21, gyros_y = Finite 12, gyros_z = Finite (- 27),
         gyros_temperature = Finite 37\<rparr>]"
    unfolding g by simp
  from 1 2 show ?thesis by simp
qed

subsection \<open>The FIFO loops and the accelerometer temperature\<close>

lemma wait_fifo_read:
  "wait_fifo t0 err rs ts = Some (read_good, err', rs', ts') \<Longrightarrow>
     set rs' \<subseteq> set rs \<and> (case read_good of Some d \<Rightarrow> Some d \<in> set rs | None \<Rightarrow> err')"
  by (induction t0 err rs ts rule: wait_fifo.induct)
    (auto split: if_splits option.splits)

lemma drain_fifo_buf:
  "drain_fifo add acc count d rs = (acc', count', buf, rs') \<Longrightarrow> buf = d \<or> Some buf \<in> set rs"
  by (induction add acc count d rs rule: drain_fifo.induct) auto

lemma bma180_section_accel:
  assumes "bma180_section cfg s inp ts = Some (Inr (acc, n, b, ts'))"
    and "\<not> PIOS_MPU6000_ACCEL cfg"
  shows "\<exists>d. b = Some d \<and> Some d \<in> set (bma180_fifo inp)"
proof -
  from assms obtain r rs where w: "wait_fifo (lastSysTime s) (error s) (bma180_fifo inp) ts
      = Some (r, False, rs, ts')"
    by (auto simp: bma180_section_def split: option.splits if_splits prod.splits)
  from wait_fifo_read [OF w] obtain d where d: "r = Some d" "Some d \<in> set (bma180_fifo inp)"
    and rs: "set rs \<subseteq> set (bma180_fifo inp)"
    by (cases r) auto
  from assms w d obtain acc' n' buf rs' where
    dr: "drain_fifo (\<lambda>b. accumulate (bma180_xyz b)) (0, 0, 0) 0 d rs = (acc', n', buf, rs')"
    and b: "b = Some buf"
    by (auto simp: bma180_section_def split: prod.splits)
  from drain_fifo_buf [OF dr] d rs have "Some buf \<in> set (bma180_fifo inp)" by auto
  with b show ?thesis by simp
qed

lemma gyro_section_accel:
  "gyro_section cfg s inp (acc, n, b, ts) = Some (Inr l) \<Longrightarrow> accel l = b"
  by (auto simp: gyro_section_def split: if_splits option.splits prod.splits)

lemma gyro_section_mpu6000_temperature:
  assumes "gyro_section cfg s inp a = Some (Inr l)"
    and "PIOS_INCLUDE_MPU6000 cfg"
  shows "\<exists>d. Some d \<in> set (mpu6000_fifo inp)
     \<and> gyro_temperature l = Finite (real_of_int (mpu6000_temperature d))"
proof -
  obtain aacc asamples abuf ts where a: "a = (aacc, asamples, abuf, ts)" by (cases a) auto
  from assms a obtain r rs ts' where w: "wait_fifo (lastSysTime s) (error s) (mpu6000_fifo inp) ts
      = Some (r, False, rs, ts')"
    by (auto simp: gyro_section_def split: option.splits if_splits prod.splits)
  from wait_fifo_read [OF w] obtain d where d: "r = Some d" "Some d \<in> set (mpu6000_fifo inp)"
    and rs: "set rs \<subseteq> set (mpu6000_fifo inp)"
    by (cases r) auto
  obtain acc' n' buf rs' where
    dr: "drain_fifo (mpu6000_accumulate cfg) ((0, 0, 0), aacc) 0 d rs = (acc', n', buf, rs')"
    by (cases "drain_fifo (mpu6000_accumulate cfg) ((0, 0, 0), aacc) 0 d rs") auto
  from assms a w d dr have "gyro_temperature l = float_of_int (mpu6000_temperature buf)"
    by (auto simp: gyro_section_def split: prod.splits)
  moreover from drain_fifo_buf [OF dr] d rs have "Some buf \<in> set (mpu6000_fifo inp)" by auto
  ultimately show ?thesis by (auto simp: float_of_int_def)
qed

text \<open>
  What lines 307 to 313 publish where a formula is compiled. A completed iteration
  publishes one accelerometer measurement. When the build defines \<^verbatim>\<open>BMA180\<close> (and
  takes the accel from the BMA180), its temperature is \<open>25 + (t - 2) / 2\<close> for the raw
  temperature \<open>t\<close> of a BMA180 sample read in this iteration; when the build defines
  \<^verbatim>\<open>PIOS_MPU6000_ACCEL\<close> with the MPU6000 and not \<^verbatim>\<open>BMA180\<close>, it is
  \<open>35 + (t + 512) / 340\<close> for the raw temperature of an MPU6000 sample read in this
  iteration. In every build that defines neither symbol, the published temperature is the
  content the local \<^verbatim>\<open>accelsData\<close> happened to have.
\<close>

lemma accel_temperature_published:
  assumes "SensorsTask_loop cfg inp s = Some (s', fx)"
    and "\<not> error s'"
  shows "\<exists>a. accels_published fx = [a]
     \<and> (BMA180 cfg \<and> \<not> PIOS_MPU6000_ACCEL cfg \<longrightarrow>
          (\<exists>d. Some d \<in> set (bma180_fifo inp)
             \<and> accels_temperature a = Finite (25 + (real_of_int (bma180_temperature d) - 2) / 2)))
     \<and> (PIOS_MPU6000_ACCEL cfg \<and> PIOS_INCLUDE_MPU6000 cfg \<and> \<not> BMA180 cfg \<longrightarrow>
          (\<exists>d. Some d \<in> set (mpu6000_fifo inp)
             \<and> accels_temperature a = Finite (35 + (real_of_int (mpu6000_temperature d) + 512) / 340)))
     \<and> (\<not> BMA180 cfg \<and> \<not> PIOS_MPU6000_ACCEL cfg \<longrightarrow>
          accels_temperature a = accelsData_temperature_indeterminate inp)"
  using assms(1)
proof (cases rule: SensorsTask_loop_cases)
  case (abandoned s1 fx1 ts1 fx2)
  with assms(2) show ?thesis by simp
next
  case (completed s1 fx1 ts1 a l fx4)
  let ?a = "accelsData cfg inp s1 l"
  have "accels_published fx1 = []"
    using loop_top_Some(10,11) [OF completed(1)] by (cases "error s") auto
  then have pub: "accels_published fx = [?a]"
    using completed(5) publish_accels [OF completed(4)] by simp
  have bma: "\<exists>d. Some d \<in> set (bma180_fifo inp)
      \<and> accels_temperature ?a = Finite (25 + (real_of_int (bma180_temperature d) - 2) / 2)"
    if "BMA180 cfg" "\<not> PIOS_MPU6000_ACCEL cfg"
  proof -
    obtain acc n b ts where a: "a = (acc, n, b, ts)" by (cases a) auto
    from bma180_section_accel [OF completed(2) [unfolded a] that(2)]
    obtain d where d: "b = Some d" "Some d \<in> set (bma180_fifo inp)" by auto
    from gyro_section_accel [OF completed(3) [unfolded a]] d have "accel l = Some d" by simp
    with that have "accels_temperature ?a = Finite (25 + (real_of_int (bma180_temperature d) - 2) / 2)"
      by (simp add: accelsData_def Let_def float_of_int_def split: prod.splits)
    with d show ?thesis by auto
  qed
  have mpu: "\<exists>d. Some d \<in> set (mpu6000_fifo inp)
      \<and> accels_temperature ?a = Finite (35 + (real_of_int (mpu6000_temperature d) + 512) / 340)"
    if "PIOS_MPU6000_ACCEL cfg" "PIOS_INCLUDE_MPU6000 cfg" "\<not> BMA180 cfg"
  proof -
    from gyro_section_mpu6000_temperature [OF completed(3) that(2)]
    obtain d where d: "Some d \<in> set (mpu6000_fifo inp)"
      "gyro_temperature l = Finite (real_of_int (mpu6000_temperature d))" by auto
    with that have "accels_temperature ?a = Finite (35 + (real_of_int (mpu6000_temperature d) + 512) / 340)"
      by (simp add: accelsData_def Let_def split: prod.splits)
    with d show ?thesis by auto
  qed
  have unset: "accels_temperature ?a = accelsData_temperature_indeterminate inp"
    if "\<not> BMA180 cfg" "\<not> PIOS_MPU6000_ACCEL cfg"
    using that by (simp add: accelsData_def split: prod.splits)
  from pub bma mpu unset show ?thesis by auto
qed

lemma accel_temperature_mpu6000_example:
  "\<exists>s' fx a. SensorsTask_loop build_mpu6000
        (quiet_input\<lparr>mpu6000_fifo := [Some mpu6000_sample]\<rparr>) (calibrated 0) = Some (s', fx)
     \<and> \<not> error s' \<and> accels_published fx = [a] \<and> accels_temperature a = Finite 37"
proof -
  let ?inp = "quiet_input\<lparr>mpu6000_fifo := [Some mpu6000_sample]\<rparr>"
  obtain s' fx where run: "SensorsTask_loop build_mpu6000 ?inp (calibrated 0) = Some (s', fx)"
    and ok: "\<not> error s'"
    by (simp add: loop_defs example_defs Let_def)
  from accel_temperature_published [OF run ok] obtain a d where
    "accels_published fx = [a]" "Some d \<in> set (mpu6000_fifo ?inp)"
    "accels_temperature a = Finite (35 + (real_of_int (mpu6000_temperature d) + 512) / 340)"
    by (auto simp: build_mpu6000_def)
  then have "accels_published fx = [a] \<and> accels_temperature a = Finite 37"
    by (simp add: quiet_input_def mpu6000_sample_def)
  with run ok show ?thesis by blast
qed

text \<open>
  C9. The two builds that take the accel from the BMA180 (BMA180 with MPU6000 gyro, BMA180
  with L3GD20 gyro) define \<^verbatim>\<open>PIOS_INCLUDE_BMA180\<close>, not the symbol \<^verbatim>\<open>BMA180\<close>
  that line 307 tests, and not \<^verbatim>\<open>PIOS_MPU6000_ACCEL\<close>: neither formula is compiled,
  \<^verbatim>\<open>accelsData.temperature\<close> is never written before \<^verbatim>\<open>AccelsSet\<close>, and the
  published temperature is what the local held (here 1234, then -7), not
  \<open>25 + (10 - 2) / 2 = 29\<close> for the sample's raw temperature 10.
\<close>

theorem accel_temperature_unset:
  "map_option snd (SensorsTask_loop build_bma180_mpu6000
      (quiet_input\<lparr>bma180_fifo := [Some bma180_sample], mpu6000_fifo := [Some mpu6000_sample],
         accelsData_temperature_indeterminate := Finite 1234\<rparr>)
      (calibrated 0))
   = Some [AlarmsClear,
       AccelsSet \<lparr>accels_x = Finite 1, accels_y = Finite 2, accels_z = Finite 3,
         accels_temperature = Finite 1234\<rparr>,
       GyrosSet \<lparr>gyros_x = Finite 20, gyros_y = Finite 10, gyros_z = Finite (- 30),
         gyros_temperature = Finite 37\<rparr>,
       PIOS_WDG_UpdateFlag, vTaskDelayUntil 2]
   \<and> map_option snd (SensorsTask_loop build_bma180_l3gd20
      (quiet_input\<lparr>bma180_fifo := [Some bma180_sample], l3gd20_queue := [l3gd20_sample],
         accelsData_temperature_indeterminate := Finite (- 7)\<rparr>)
      (calibrated 0))
   = Some [AlarmsClear,
       AccelsSet \<lparr>accels_x = Finite 1, accels_y = Finite 2, accels_z = Finite 3,
         accels_temperature = Finite (- 7)\<rparr>,
       GyrosSet \<lparr>gyros_x = Finite 20, gyros_y = Finite 10, gyros_z = Finite (- 30),
         gyros_temperature = Finite 25\<rparr>,
       PIOS_WDG_UpdateFlag]
   \<and> Finite 25 + fdiv (float_of_int (bma180_temperature bma180_sample) - Finite 2) (Finite 2)
       = Finite 29"
  by (simp add: loop_defs example_defs Let_def)

subsection \<open>Averaging\<close>

lemma sint_fits_int32: "fits_int32 i \<Longrightarrow> sint (word_of_int i :: 32 word) = i"
  by (simp add: fits_int32_def sint_sbintrunc' signed_take_bit_int_eq_self)

lemma unat_count: "N < 2 ^ 32 \<Longrightarrow> unat (word_of_nat N :: 32 word) = N"
  by (simp add: unat_of_nat)

lemma accumulate_funpow:
  "(accumulate (x, y, z) ^^ n) (a0, a1, a2)
   = (a0 + word_of_int (int n * x), a1 + word_of_int (int n * y), a2 + word_of_int (int n * z))"
  by (induction n) (simp_all add: accumulate_def algebra_simps)

lemma drain_fifo_replicate:
  "rs = [] \<or> hd rs = None \<Longrightarrow>
   drain_fifo add acc c d (replicate n (Some d) @ rs)
   = ((add d ^^ Suc n) acc, c + word_of_nat (Suc n), d, tl rs)"
proof (induction n arbitrary: acc c)
  case 0
  then show ?case by (cases rs) auto
next
  case (Suc n)
  then show ?case by (simp add: funpow_swap1 algebra_simps)
qed

lemma mean_of_copies:
  assumes "0 < N" and "N < 2 ^ 32" and "fits_int32 (int N * v)"
  shows "fdiv (float_of_int32 (word_of_int (int N * v))) (float_of_uint32 (word_of_nat N))
      = Finite (real_of_int v)"
    and "fdiv (- float_of_int32 (word_of_int (int N * v))) (float_of_uint32 (word_of_nat N))
      = Finite (- real_of_int v)"
proof -
  have "sint (word_of_int (int N * v) :: 32 word) = int N * v"
    using assms(3) by (rule sint_fits_int32)
  moreover have "unat (word_of_nat N :: 32 word) = N"
    using assms(2) by (rule unat_count)
  ultimately show
    "fdiv (float_of_int32 (word_of_int (int N * v))) (float_of_uint32 (word_of_nat N))
      = Finite (real_of_int v)"
    "fdiv (- float_of_int32 (word_of_int (int N * v))) (float_of_uint32 (word_of_nat N))
      = Finite (- real_of_int v)"
    using assms(1) unfolding float_of_int32_def float_of_uint32_def by simp_all
qed

lemma mean_general:
  "n \<noteq> 0 \<Longrightarrow> fdiv (float_of_int32 a) (float_of_uint32 n)
      = Finite (real_of_int (sint a) / real (unat n))"
  "n \<noteq> 0 \<Longrightarrow> fdiv (- float_of_int32 a) (float_of_uint32 n)
      = Finite (- (real_of_int (sint a) / real (unat n)))"
  by (simp_all add: float_of_int32_def float_of_uint32_def unsigned_eq_0_iff)

lemma mpu6000_accumulate_funpow:
  "(mpu6000_accumulate cfg d ^^ n) (g, a)
   = ((accumulate (mpu6000_gyro_xyz d) ^^ n) g,
      if PIOS_MPU6000_ACCEL cfg then (accumulate (mpu6000_accel_xyz d) ^^ n) a else a)"
  by (induction n) (simp_all add: mpu6000_accumulate_def)

lemma foldl_accumulate_replicate:
  "foldl (\<lambda>acc e. accumulate (f e) acc) a (replicate n d) = (accumulate (f d) ^^ n) a"
  by (induction n arbitrary: a) (simp_all add: funpow_swap1)

lemma foldl_count_replicate:
  "foldl (\<lambda>(c :: 32 word) e. c + 1) c (replicate n d) = c + word_of_nat n"
  by (induction n arbitrary: c) (simp_all add: algebra_simps)

lemma bma180_section_identical:
  assumes "\<not> PIOS_MPU6000_ACCEL cfg" and "\<not> error s"
    and "bma180_fifo inp = replicate N (Some d) @ rs" and "rs = [] \<or> hd rs = None" and "0 < N"
  shows "bma180_section cfg s inp ts
     = Some (Inr ((word_of_int (int N * bma180_x d), word_of_int (int N * bma180_y d),
                   word_of_int (int N * bma180_z d)), word_of_nat N, Some d, ts))"
proof -
  from assms(5) obtain n where N: "N = Suc n" by (cases N) auto
  have "wait_fifo (lastSysTime s) (error s) (bma180_fifo inp) ts
      = Some (Some d, False, replicate n (Some d) @ rs, ts)"
    using assms(2,3) N by simp
  moreover have "drain_fifo (\<lambda>b. accumulate (bma180_xyz b)) (0, 0, 0) 0 d (replicate n (Some d) @ rs)
      = ((word_of_int (int N * bma180_x d), word_of_int (int N * bma180_y d),
          word_of_int (int N * bma180_z d)), word_of_nat N, d, tl rs)"
    using drain_fifo_replicate [OF assms(4), where add = "\<lambda>b. accumulate (bma180_xyz b)"
        and acc = "(0, 0, 0)" and c = 0 and d = d and n = n]
      accumulate_funpow [where x = "bma180_x d" and y = "bma180_y d" and z = "bma180_z d"
        and n = N and ?a0.0 = 0 and ?a1.0 = 0 and ?a2.0 = 0]
    unfolding N bma180_xyz_def by (simp del: funpow.simps of_int_mult of_nat_Suc of_int_add)
  ultimately show ?thesis using assms(1) by (simp add: bma180_section_def)
qed

lemma gyro_section_mpu6000_identical:
  assumes "PIOS_INCLUDE_MPU6000 cfg" and "\<not> error s"
    and "mpu6000_fifo inp = replicate N (Some d) @ rs" and "rs = [] \<or> hd rs = None" and "0 < N"
  shows "gyro_section cfg s inp ((a0, a1, a2), asamples, abuf, ts)
     = Some (Inr \<lparr>accel_accum =
          (if PIOS_MPU6000_ACCEL cfg
           then (a0 + word_of_int (int N * mpu6000_accel_x d),
                 a1 + word_of_int (int N * mpu6000_accel_y d),
                 a2 + word_of_int (int N * mpu6000_accel_z d))
           else (a0, a1, a2)),
        gyro_accum = (word_of_int (int N * mpu6000_gyro_x d), word_of_int (int N * mpu6000_gyro_y d),
                      word_of_int (int N * mpu6000_gyro_z d)),
        accel_samples = (if PIOS_MPU6000_ACCEL cfg then word_of_nat N else asamples),
        gyro_samples = word_of_nat N, gyro_scaling = mpu6000_scale inp, accel = abuf,
        gyro_temperature = float_of_int (mpu6000_temperature d)\<rparr>)"
proof -
  from assms(5) obtain n where N: "N = Suc n" by (cases N) auto
  have w: "wait_fifo (lastSysTime s) (error s) (mpu6000_fifo inp) ts
      = Some (Some d, False, replicate n (Some d) @ rs, ts)"
    using assms(2,3) N by simp
  have "drain_fifo (mpu6000_accumulate cfg) ((0, 0, 0), (a0, a1, a2)) 0 d (replicate n (Some d) @ rs)
      = ((mpu6000_accumulate cfg d ^^ N) ((0, 0, 0), (a0, a1, a2)), word_of_nat N, d, tl rs)"
    using drain_fifo_replicate [OF assms(4), where add = "mpu6000_accumulate cfg"
        and acc = "((0, 0, 0), (a0, a1, a2))" and c = 0 and d = d and n = n]
    unfolding N by (simp del: funpow.simps of_nat_Suc)
  moreover have "(mpu6000_accumulate cfg d ^^ N) ((0, 0, 0), (a0, a1, a2))
      = ((word_of_int (int N * mpu6000_gyro_x d), word_of_int (int N * mpu6000_gyro_y d),
          word_of_int (int N * mpu6000_gyro_z d)),
         (if PIOS_MPU6000_ACCEL cfg
          then (a0 + word_of_int (int N * mpu6000_accel_x d),
                a1 + word_of_int (int N * mpu6000_accel_y d),
                a2 + word_of_int (int N * mpu6000_accel_z d))
          else (a0, a1, a2)))"
    unfolding mpu6000_accumulate_funpow mpu6000_gyro_xyz_def mpu6000_accel_xyz_def
      accumulate_funpow by simp
  ultimately show ?thesis using assms(1) w
    by (simp add: gyro_section_def del: of_int_mult)
qed

lemma gyro_section_l3gd20_identical:
  assumes "\<not> PIOS_INCLUDE_MPU6000 cfg" and "PIOS_INCLUDE_L3GD20 cfg"
    and "l3gd20_queue inp = replicate N d" and "0 < N"
  shows "gyro_section cfg s inp (aacc, asamples, abuf, ts)
     = Some (Inr \<lparr>accel_accum = aacc,
        gyro_accum = (word_of_int (int N * l3gd20_gyro_x d), word_of_int (int N * l3gd20_gyro_y d),
                      word_of_int (int N * l3gd20_gyro_z d)),
        accel_samples = asamples,
        gyro_samples = word_of_nat N, gyro_scaling = l3gd20_scale inp, accel = abuf,
        gyro_temperature = float_of_int (l3gd20_temperature d)\<rparr>)"
proof -
  from assms(4) obtain n where N: "N = Suc n" by (cases N) auto
  have "foldl (\<lambda>acc e. accumulate (l3gd20_gyro_xyz e) acc) (0, 0, 0) (replicate N d)
      = (word_of_int (int N * l3gd20_gyro_x d), word_of_int (int N * l3gd20_gyro_y d),
         word_of_int (int N * l3gd20_gyro_z d))"
    unfolding foldl_accumulate_replicate l3gd20_gyro_xyz_def accumulate_funpow by simp
  moreover have "foldl (\<lambda>(c :: 32 word) e. c + 1) 0 (replicate N d) = word_of_nat N"
    unfolding foldl_count_replicate by simp
  moreover have "(case replicate N d of [] \<Rightarrow> gyro_temperature_indeterminate inp
      | e # es \<Rightarrow> float_of_int (l3gd20_temperature (last (e # es))))
      = float_of_int (l3gd20_temperature d)"
    unfolding N by simp
  ultimately show ?thesis using assms(1-3)
    by (simp add: gyro_section_def del: of_int_mult)
qed

lemma sum_fitsD:
  assumes "sum_fits N (x, y, z)"
  shows "0 < N" and "N < 2 ^ 32"
    and "fits_int32 (int N * x)" and "fits_int32 (int N * y)" and "fits_int32 (int N * z)"
  using assms by (simp_all add: sum_fits_def)

text \<open>
  C7, as the code has it. For a nonzero count the value fed into scaling is, per axis, the
  sum read as a signed 32-bit integer divided by the count, in the remapped order and
  sign. When a loop accumulates \<open>N\<close> copies of one sample, \<open>N \<ge> 1\<close>, and the three sums
  \<open>N * x\<close>, \<open>N * y\<close>, \<open>N * z\<close> fit the \<^verbatim>\<open>int32_t\<close> accumulators (and \<open>N\<close> the
  count), the means are exactly the sample: for the BMA180 accel, the MPU6000 gyro and
  accel, and the L3GD20 gyro.
\<close>

theorem mean_of_samples:
  "(accel_samples l \<noteq> 0 \<longrightarrow>
      accels l = (case accel_accum l of (a0, a1, a2) \<Rightarrow>
        (Finite (real_of_int (sint a1) / real (unat (accel_samples l))),
         Finite (real_of_int (sint a0) / real (unat (accel_samples l))),
         Finite (- (real_of_int (sint a2) / real (unat (accel_samples l)))))))
   \<and> (gyro_samples l \<noteq> 0 \<longrightarrow>
      gyros l = (case gyro_accum l of (g0, g1, g2) \<Rightarrow>
        (Finite (real_of_int (sint g1) / real (unat (gyro_samples l))),
         Finite (real_of_int (sint g0) / real (unat (gyro_samples l))),
         Finite (- (real_of_int (sint g2) / real (unat (gyro_samples l)))))))
   \<and> (\<not> PIOS_MPU6000_ACCEL cfg \<and> \<not> error s
        \<and> bma180_fifo inp = replicate N (Some b) @ rs \<and> (rs = [] \<or> hd rs = None)
        \<and> sum_fits N (bma180_xyz b) \<longrightarrow>
      (\<exists>acc n. bma180_section cfg s inp ts = Some (Inr (acc, n, Some b, ts))
         \<and> accels (l\<lparr>accel_accum := acc, accel_samples := n\<rparr>)
             = (Finite (real_of_int (bma180_y b)), Finite (real_of_int (bma180_x b)),
                Finite (- real_of_int (bma180_z b)))))
   \<and> (PIOS_INCLUDE_MPU6000 cfg \<and> \<not> error s
        \<and> mpu6000_fifo inp = replicate N (Some m) @ ms \<and> (ms = [] \<or> hd ms = None)
        \<and> sum_fits N (mpu6000_gyro_xyz m) \<longrightarrow>
      (\<exists>l'. gyro_section cfg s inp ((0, 0, 0), asamples, abuf, ts) = Some (Inr l')
         \<and> gyros l' = (Finite (real_of_int (mpu6000_gyro_y m)), Finite (real_of_int (mpu6000_gyro_x m)),
                       Finite (- real_of_int (mpu6000_gyro_z m)))
         \<and> (PIOS_MPU6000_ACCEL cfg \<and> sum_fits N (mpu6000_accel_xyz m) \<longrightarrow>
              accels l' = (Finite (real_of_int (mpu6000_accel_y m)),
                           Finite (real_of_int (mpu6000_accel_x m)),
                           Finite (- real_of_int (mpu6000_accel_z m))))))
   \<and> (\<not> PIOS_INCLUDE_MPU6000 cfg \<and> PIOS_INCLUDE_L3GD20 cfg
        \<and> l3gd20_queue inp = replicate N g \<and> sum_fits N (l3gd20_gyro_xyz g) \<longrightarrow>
      (\<exists>l'. gyro_section cfg s inp a = Some (Inr l')
         \<and> gyros l' = (Finite (real_of_int (l3gd20_gyro_y g)), Finite (real_of_int (l3gd20_gyro_x g)),
                       Finite (- real_of_int (l3gd20_gyro_z g)))))"
proof (intro conjI impI)
  assume "accel_samples l \<noteq> 0"
  then show "accels l = (case accel_accum l of (a0, a1, a2) \<Rightarrow>
        (Finite (real_of_int (sint a1) / real (unat (accel_samples l))),
         Finite (real_of_int (sint a0) / real (unat (accel_samples l))),
         Finite (- (real_of_int (sint a2) / real (unat (accel_samples l))))))"
    by (simp add: accels_def mean_general split: prod.splits)
next
  assume "gyro_samples l \<noteq> 0"
  then show "gyros l = (case gyro_accum l of (g0, g1, g2) \<Rightarrow>
        (Finite (real_of_int (sint g1) / real (unat (gyro_samples l))),
         Finite (real_of_int (sint g0) / real (unat (gyro_samples l))),
         Finite (- (real_of_int (sint g2) / real (unat (gyro_samples l))))))"
    by (simp add: gyros_def mean_general split: prod.splits)
next
  assume h: "\<not> PIOS_MPU6000_ACCEL cfg \<and> \<not> error s
        \<and> bma180_fifo inp = replicate N (Some b) @ rs \<and> (rs = [] \<or> hd rs = None)
        \<and> sum_fits N (bma180_xyz b)"
  then have fits: "sum_fits N (bma180_x b, bma180_y b, bma180_z b)"
    by (simp add: bma180_xyz_def)
  note f = sum_fitsD [OF fits]
  from h f(1) have sec: "bma180_section cfg s inp ts
     = Some (Inr ((word_of_int (int N * bma180_x b), word_of_int (int N * bma180_y b),
                   word_of_int (int N * bma180_z b)), word_of_nat N, Some b, ts))"
    by (intro bma180_section_identical) auto
  have "accels (l\<lparr>accel_accum := (word_of_int (int N * bma180_x b),
          word_of_int (int N * bma180_y b), word_of_int (int N * bma180_z b)),
        accel_samples := word_of_nat N\<rparr>)
      = (Finite (real_of_int (bma180_y b)), Finite (real_of_int (bma180_x b)),
         Finite (- real_of_int (bma180_z b)))"
    unfolding accels_def
    using mean_of_copies [OF f(1,2,3)] mean_of_copies [OF f(1,2,4)] mean_of_copies [OF f(1,2,5)]
    by (simp del: of_int_mult)
  with sec show "\<exists>acc n. bma180_section cfg s inp ts = Some (Inr (acc, n, Some b, ts))
         \<and> accels (l\<lparr>accel_accum := acc, accel_samples := n\<rparr>)
             = (Finite (real_of_int (bma180_y b)), Finite (real_of_int (bma180_x b)),
                Finite (- real_of_int (bma180_z b)))"
    by blast
next
  assume h: "PIOS_INCLUDE_MPU6000 cfg \<and> \<not> error s
        \<and> mpu6000_fifo inp = replicate N (Some m) @ ms \<and> (ms = [] \<or> hd ms = None)
        \<and> sum_fits N (mpu6000_gyro_xyz m)"
  then have fits: "sum_fits N (mpu6000_gyro_x m, mpu6000_gyro_y m, mpu6000_gyro_z m)"
    by (simp add: mpu6000_gyro_xyz_def)
  note f = sum_fitsD [OF fits]
  let ?l = "\<lparr>accel_accum =
          (if PIOS_MPU6000_ACCEL cfg
           then (0 + word_of_int (int N * mpu6000_accel_x m),
                 0 + word_of_int (int N * mpu6000_accel_y m),
                 0 + word_of_int (int N * mpu6000_accel_z m))
           else (0, 0, 0)),
        gyro_accum = (word_of_int (int N * mpu6000_gyro_x m), word_of_int (int N * mpu6000_gyro_y m),
                      word_of_int (int N * mpu6000_gyro_z m)),
        accel_samples = (if PIOS_MPU6000_ACCEL cfg then word_of_nat N else asamples),
        gyro_samples = word_of_nat N, gyro_scaling = mpu6000_scale inp, accel = abuf,
        gyro_temperature = float_of_int (mpu6000_temperature m)\<rparr>"
  from h f(1) have sec: "gyro_section cfg s inp ((0, 0, 0), asamples, abuf, ts) = Some (Inr ?l)"
    by (intro gyro_section_mpu6000_identical) auto
  have g: "gyros ?l = (Finite (real_of_int (mpu6000_gyro_y m)), Finite (real_of_int (mpu6000_gyro_x m)),
                       Finite (- real_of_int (mpu6000_gyro_z m)))"
    unfolding gyros_def
    using mean_of_copies [OF f(1,2,3)] mean_of_copies [OF f(1,2,4)] mean_of_copies [OF f(1,2,5)]
    by (simp del: of_int_mult)
  have a: "accels ?l = (Finite (real_of_int (mpu6000_accel_y m)),
                           Finite (real_of_int (mpu6000_accel_x m)),
                           Finite (- real_of_int (mpu6000_accel_z m)))"
    if "PIOS_MPU6000_ACCEL cfg \<and> sum_fits N (mpu6000_accel_xyz m)"
  proof -
    from that have "sum_fits N (mpu6000_accel_x m, mpu6000_accel_y m, mpu6000_accel_z m)"
      by (simp add: mpu6000_accel_xyz_def)
    note fa = sum_fitsD [OF this]
    show ?thesis unfolding accels_def
      using that mean_of_copies [OF fa(1,2,3)] mean_of_copies [OF fa(1,2,4)]
        mean_of_copies [OF fa(1,2,5)]
      by (simp del: of_int_mult)
  qed
  from sec g a show "\<exists>l'. gyro_section cfg s inp ((0, 0, 0), asamples, abuf, ts) = Some (Inr l')
         \<and> gyros l' = (Finite (real_of_int (mpu6000_gyro_y m)), Finite (real_of_int (mpu6000_gyro_x m)),
                       Finite (- real_of_int (mpu6000_gyro_z m)))
         \<and> (PIOS_MPU6000_ACCEL cfg \<and> sum_fits N (mpu6000_accel_xyz m) \<longrightarrow>
              accels l' = (Finite (real_of_int (mpu6000_accel_y m)),
                           Finite (real_of_int (mpu6000_accel_x m)),
                           Finite (- real_of_int (mpu6000_accel_z m))))"
    by blast
next
  assume h: "\<not> PIOS_INCLUDE_MPU6000 cfg \<and> PIOS_INCLUDE_L3GD20 cfg
        \<and> l3gd20_queue inp = replicate N g \<and> sum_fits N (l3gd20_gyro_xyz g)"
  then have fits: "sum_fits N (l3gd20_gyro_x g, l3gd20_gyro_y g, l3gd20_gyro_z g)"
    by (simp add: l3gd20_gyro_xyz_def)
  note f = sum_fitsD [OF fits]
  obtain aacc asamples' abuf' ts' where a: "a = (aacc, asamples', abuf', ts')" by (cases a) auto
  let ?l = "\<lparr>accel_accum = aacc,
        gyro_accum = (word_of_int (int N * l3gd20_gyro_x g), word_of_int (int N * l3gd20_gyro_y g),
                      word_of_int (int N * l3gd20_gyro_z g)),
        accel_samples = asamples',
        gyro_samples = word_of_nat N, gyro_scaling = l3gd20_scale inp, accel = abuf',
        gyro_temperature = float_of_int (l3gd20_temperature g)\<rparr>"
  from h f(1) have sec: "gyro_section cfg s inp a = Some (Inr ?l)"
    unfolding a by (intro gyro_section_l3gd20_identical) auto
  have "gyros ?l = (Finite (real_of_int (l3gd20_gyro_y g)), Finite (real_of_int (l3gd20_gyro_x g)),
                       Finite (- real_of_int (l3gd20_gyro_z g)))"
    unfolding gyros_def
    using mean_of_copies [OF f(1,2,3)] mean_of_copies [OF f(1,2,4)] mean_of_copies [OF f(1,2,5)]
    by (simp del: of_int_mult)
  with sec show "\<exists>l'. gyro_section cfg s inp a = Some (Inr l')
         \<and> gyros l' = (Finite (real_of_int (l3gd20_gyro_y g)), Finite (real_of_int (l3gd20_gyro_x g)),
                       Finite (- real_of_int (l3gd20_gyro_z g)))"
    by blast
qed

theorem mean_of_samples_witness:
  "accels three_samples = (Finite 1, Finite 2, Finite 3)
   \<and> gyros three_samples = (Finite 20, Finite 10, Finite (- 30))
   \<and> (\<exists>acc n. bma180_section build_bma180_mpu6000 (calibrated 0)
          (quiet_input\<lparr>bma180_fifo := replicate 3 (Some bma180_sample)\<rparr>) []
        = Some (Inr (acc, n, Some bma180_sample, []))
      \<and> accels (three_samples\<lparr>accel_accum := acc, accel_samples := n\<rparr>)
        = (Finite 1, Finite 2, Finite 3))
   \<and> (\<exists>l'. gyro_section build_mpu6000 (calibrated 0)
          (quiet_input\<lparr>mpu6000_fifo := replicate 3 (Some mpu6000_sample)\<rparr>)
          ((0, 0, 0), 0, None, []) = Some (Inr l')
      \<and> gyros l' = (Finite 20, Finite 10, Finite (- 30))
      \<and> accels l' = (Finite 1, Finite 2, Finite 3))
   \<and> (\<exists>l'. gyro_section build_bma180_l3gd20 (calibrated 0)
          (quiet_input\<lparr>l3gd20_queue := replicate 3 l3gd20_sample\<rparr>)
          ((0, 0, 0), 0, None, []) = Some (Inr l')
      \<and> gyros l' = (Finite 20, Finite 10, Finite (- 30)))"
proof -
  have ok: "\<not> error (calibrated 0)"
    by (simp add: calibrated_def settingsUpdatedCb_def statics_def)
  have fits: "sum_fits 3 (bma180_xyz bma180_sample)" "sum_fits 3 (mpu6000_gyro_xyz mpu6000_sample)"
    "sum_fits 3 (mpu6000_accel_xyz mpu6000_sample)" "sum_fits 3 (l3gd20_gyro_xyz l3gd20_sample)"
    by (simp_all add: sum_fits_def fits_int32_def bma180_xyz_def mpu6000_gyro_xyz_def
        mpu6000_accel_xyz_def l3gd20_gyro_xyz_def bma180_sample_def mpu6000_sample_def
        l3gd20_sample_def)
  note inst = mean_of_samples [where l = three_samples and N = 3 and ts = "[]"
      and s = "calibrated 0" and b = bma180_sample and rs = "[]" and m = mpu6000_sample
      and ms = "[]" and g = l3gd20_sample and asamples = 0 and abuf = None
      and a = "((0, 0, 0), 0, None, [])"]
  have 1: "accels three_samples = (Finite 1, Finite 2, Finite 3)"
    using inst [where cfg = build_mpu6000 and inp = quiet_input, THEN conjunct1]
    by (simp add: three_samples_def)
  have 2: "gyros three_samples = (Finite 20, Finite 10, Finite (- 30))"
    using inst [where cfg = build_mpu6000 and inp = quiet_input, THEN conjunct2, THEN conjunct1]
    by (simp add: three_samples_def)
  have 3: "\<exists>acc n. bma180_section build_bma180_mpu6000 (calibrated 0)
          (quiet_input\<lparr>bma180_fifo := replicate 3 (Some bma180_sample)\<rparr>) []
        = Some (Inr (acc, n, Some bma180_sample, []))
      \<and> accels (three_samples\<lparr>accel_accum := acc, accel_samples := n\<rparr>)
        = (Finite 1, Finite 2, Finite 3)"
    using inst [where cfg = build_bma180_mpu6000
        and inp = "quiet_input\<lparr>bma180_fifo := replicate 3 (Some bma180_sample)\<rparr>",
        THEN conjunct2, THEN conjunct2, THEN conjunct1] ok fits(1)
    by (simp add: build_bma180_mpu6000_def bma180_sample_def)
  have 4: "\<exists>l'. gyro_section build_mpu6000 (calibrated 0)
          (quiet_input\<lparr>mpu6000_fifo := replicate 3 (Some mpu6000_sample)\<rparr>)
          ((0, 0, 0), 0, None, []) = Some (Inr l')
      \<and> gyros l' = (Finite 20, Finite 10, Finite (- 30))
      \<and> accels l' = (Finite 1, Finite 2, Finite 3)"
    using inst [where cfg = build_mpu6000
        and inp = "quiet_input\<lparr>mpu6000_fifo := replicate 3 (Some mpu6000_sample)\<rparr>",
        THEN conjunct2, THEN conjunct2, THEN conjunct2, THEN conjunct1] ok fits(2,3)
    by (simp add: build_mpu6000_def mpu6000_sample_def)
  have 5: "\<exists>l'. gyro_section build_bma180_l3gd20 (calibrated 0)
          (quiet_input\<lparr>l3gd20_queue := replicate 3 l3gd20_sample\<rparr>)
          ((0, 0, 0), 0, None, []) = Some (Inr l')
      \<and> gyros l' = (Finite 20, Finite 10, Finite (- 30))"
    using inst [where cfg = build_bma180_l3gd20
        and inp = "quiet_input\<lparr>l3gd20_queue := replicate 3 l3gd20_sample\<rparr>",
        THEN conjunct2, THEN conjunct2, THEN conjunct2, THEN conjunct2] fits(4)
    by (simp add: build_bma180_l3gd20_def l3gd20_sample_def)
  from 1 2 3 4 5 show ?thesis by blast
qed

text \<open>
  C7 as stated, for any \<open>N \<ge> 1\<close>, fails when the sum leaves the accumulator's range:
  65537 copies of a BMA180 sample with \<open>x = -32768\<close> sum to \<open>-2147516416\<close>, which the
  32-bit accumulator holds as \<open>2147450880\<close>; the mean is about \<open>32767\<close>, not \<open>-32768\<close>.
\<close>

theorem mean_of_samples_counterexample:
  "bma180_section build_bma180_mpu6000 (calibrated 0)
      (quiet_input\<lparr>bma180_fifo := replicate 65537 (Some bma180_full_scale)\<rparr>) []
     = Some (Inr ((2147450880, 0, 0), 65537, Some bma180_full_scale, []))
   \<and> accels (three_samples\<lparr>accel_accum := (2147450880, 0, 0), accel_samples := 65537\<rparr>)
     = (Finite 0, Finite (2147450880 / 65537), Finite 0)
   \<and> Finite (2147450880 / 65537) \<noteq> Finite (real_of_int (bma180_x bma180_full_scale))"
proof -
  have "bma180_section build_bma180_mpu6000 (calibrated 0)
      (quiet_input\<lparr>bma180_fifo := replicate 65537 (Some bma180_full_scale)\<rparr>) []
     = Some (Inr ((word_of_int (int 65537 * bma180_x bma180_full_scale),
                   word_of_int (int 65537 * bma180_y bma180_full_scale),
                   word_of_int (int 65537 * bma180_z bma180_full_scale)),
                  word_of_nat 65537, Some bma180_full_scale, []))"
    by (rule bma180_section_identical [where rs = "[]"])
      (simp_all add: build_bma180_mpu6000_def calibrated_def settingsUpdatedCb_def statics_def)
  then have "bma180_section build_bma180_mpu6000 (calibrated 0)
      (quiet_input\<lparr>bma180_fifo := replicate 65537 (Some bma180_full_scale)\<rparr>) []
     = Some (Inr ((2147450880, 0, 0), 65537, Some bma180_full_scale, []))"
    by (simp add: bma180_full_scale_def)
  moreover have "accels (three_samples\<lparr>accel_accum := (2147450880, 0, 0), accel_samples := 65537\<rparr>)
     = (Finite 0, Finite (2147450880 / 65537), Finite 0)"
    by (simp add: accels_def float_of_int32_def float_of_uint32_def)
  moreover have "Finite (2147450880 / 65537) \<noteq> Finite (real_of_int (bma180_x bma180_full_scale))"
    by (simp add: bma180_full_scale_def)
  ultimately show ?thesis by blast
qed

subsection \<open>Zero samples without a timeout\<close>

lemma drain_fifo_count:
  "drain_fifo add acc c d rs = (acc', c', buf, rs') \<Longrightarrow>
     \<exists>k. 0 < k \<and> k \<le> Suc (length rs) \<and> c' = c + word_of_nat k"
proof (induction add acc c d rs rule: drain_fifo.induct)
  case (1 add acc count buf d rs)
  then obtain k where "0 < k" "k \<le> Suc (length rs)" "c' = count + 1 + word_of_nat k" by auto
  then have "0 < Suc k \<and> Suc k \<le> Suc (length (Some d # rs)) \<and> c' = count + word_of_nat (Suc k)"
    by (simp add: algebra_simps)
  then show ?case by blast
qed (auto intro!: exI [of _ "Suc 0"])

lemma wait_fifo_length:
  "wait_fifo t0 err rs ts = Some (read_good, err', rs', ts') \<Longrightarrow> length rs' \<le> length rs"
  by (induction t0 err rs ts rule: wait_fifo.induct) (auto split: if_splits)

lemma word32_of_nat_nonzero: "0 < k \<Longrightarrow> k < 2 ^ 32 \<Longrightarrow> (word_of_nat k :: 32 word) \<noteq> 0"
  using unat_count [of k] by auto

lemma bma180_section_samples:
  assumes "bma180_section cfg s inp ts = Some (Inr (acc, n, b, ts'))"
    and "\<not> PIOS_MPU6000_ACCEL cfg" and "Suc (length (bma180_fifo inp)) < 2 ^ 32"
  shows "n \<noteq> 0"
proof -
  from assms obtain r rs where w: "wait_fifo (lastSysTime s) (error s) (bma180_fifo inp) ts
      = Some (r, False, rs, ts')"
    by (auto simp: bma180_section_def split: option.splits if_splits prod.splits)
  from wait_fifo_read [OF w] obtain d where d: "r = Some d" by (cases r) auto
  from assms w d obtain acc' buf rs' where
    dr: "drain_fifo (\<lambda>b. accumulate (bma180_xyz b)) (0, 0, 0) 0 d rs = (acc', n, buf, rs')"
    by (auto simp: bma180_section_def split: prod.splits)
  from drain_fifo_count [OF dr] obtain k where k: "0 < k" "k \<le> Suc (length rs)" "n = word_of_nat k"
    by auto
  have "length rs \<le> length (bma180_fifo inp)"
    using w by (rule wait_fifo_length)
  with k assms(3) have "k < 2 ^ 32" by simp
  with k show ?thesis by (simp add: word32_of_nat_nonzero)
qed

lemma gyro_section_mpu6000_samples:
  assumes "gyro_section cfg s inp a = Some (Inr l)"
    and "PIOS_INCLUDE_MPU6000 cfg" and "Suc (length (mpu6000_fifo inp)) < 2 ^ 32"
  shows "gyro_samples l \<noteq> 0"
proof -
  obtain aacc asamples abuf ts where a: "a = (aacc, asamples, abuf, ts)" by (cases a) auto
  from assms a obtain r rs ts' where w: "wait_fifo (lastSysTime s) (error s) (mpu6000_fifo inp) ts
      = Some (r, False, rs, ts')"
    by (auto simp: gyro_section_def split: option.splits if_splits prod.splits)
  from wait_fifo_read [OF w] obtain d where d: "r = Some d" by (cases r) auto
  obtain acc' n buf rs' where
    dr: "drain_fifo (mpu6000_accumulate cfg) ((0, 0, 0), aacc) 0 d rs = (acc', n, buf, rs')"
    by (cases "drain_fifo (mpu6000_accumulate cfg) ((0, 0, 0), aacc) 0 d rs") auto
  from assms a w d dr have n: "gyro_samples l = n"
    by (auto simp: gyro_section_def split: prod.splits)
  from drain_fifo_count [OF dr] obtain k where k: "0 < k" "k \<le> Suc (length rs)" "n = word_of_nat k"
    by auto
  have "length rs \<le> length (mpu6000_fifo inp)"
    using w by (rule wait_fifo_length)
  with k assms(3) have "k < 2 ^ 32" by simp
  with k n show ?thesis by (simp add: word32_of_nat_nonzero)
qed

text \<open>
  C1. The two FIFO sections leave with at least one sample or with a timeout (the two
  lemmas above, for FIFOs shorter than the 32-bit count), as the comment of line 215
  says. The L3GD20 branch does not: with an empty queue and no timeout the iteration
  divides the zero sums by the zero count and publishes the result as the gyro
  measurement. The alarm is not raised.
\<close>

theorem zero_gyro_samples_published:
  "map_option snd (SensorsTask_loop build_bma180_l3gd20
      (quiet_input\<lparr>bma180_fifo := [Some bma180_sample], l3gd20_queue := []\<rparr>) (calibrated 0))
   = Some [AlarmsClear,
       AccelsSet \<lparr>accels_x = Finite 1, accels_y = Finite 2, accels_z = Finite 3,
         accels_temperature = Finite 0\<rparr>,
       GyrosSet \<lparr>gyros_x = NonFinite, gyros_y = NonFinite, gyros_z = NonFinite,
         gyros_temperature = Finite 0\<rparr>,
       PIOS_WDG_UpdateFlag]"
  by (simp add: run_defs)

subsection \<open>Timeout and recovery\<close>

lemma publish_no_alarm:
  "publish cfg inp s l = (s', fx) \<Longrightarrow> AlarmsSetCritical \<notin> set fx \<and> AlarmsClear \<notin> set fx"
  by (auto simp: publish_def Let_def split: option.splits if_splits)

lemma publish_magnetometer:
  "publish cfg inp s l = (s', fx) \<Longrightarrow>
     magnetometer_published fx = (case hmc5883_values inp of None \<Rightarrow> [] | Some v \<Rightarrow> [mag s v])"
  by (auto simp: publish_def Let_def split: option.splits)

lemma publish_frames:
  "publish cfg inp s l = (s', fx) \<Longrightarrow>
     frames_sent fx =
       (if pios_com_aux_id s \<noteq> 0
        then [message s inp (accelsData cfg inp s l) (gyrosData cfg inp s l)
                (map_option (mag s) (hmc5883_values inp))]
        else [])"
  by (auto simp: publish_def Let_def split: option.splits)

lemma loop_top_publishes_nothing:
  assumes "loop_top cfg s ts = Some (s1, fx1, ts1)"
  shows "accels_published fx1 = []" and "gyros_published fx1 = []"
    and "magnetometer_published fx1 = []" and "frames_sent fx1 = []"
  using assms by (auto simp: loop_top_def split: if_splits list.splits)

lemma abandoned_publishes_nothing:
  assumes "SensorsTask_loop cfg inp s = Some (s', fx)" and "error s'"
  shows "accels_published fx = [] \<and> gyros_published fx = []
     \<and> magnetometer_published fx = [] \<and> frames_sent fx = []"
  using assms(1)
proof (cases rule: SensorsTask_loop_cases)
  case (abandoned s1 fx1 ts1 fx2)
  from abandoned(3,4) loop_top_publishes_nothing [OF abandoned(1)] show ?thesis by auto
next
  case (completed s1 fx1 ts1 a l fx4)
  with assms(2) show ?thesis by simp
qed

lemma completed_publishes:
  assumes "SensorsTask_loop cfg inp s = Some (s', fx)" and "\<not> error s'"
  shows "\<exists>a g. accels_published fx = [a] \<and> gyros_published fx = [g]"
  using assms(1)
proof (cases rule: SensorsTask_loop_cases)
  case (abandoned s1 fx1 ts1 fx2)
  with assms(2) show ?thesis by simp
next
  case (completed s1 fx1 ts1 a l fx4)
  note top = loop_top_publishes_nothing [OF completed(1)]
  from completed(5) top publish_accels [OF completed(4)] publish_gyros [OF completed(4)]
  show ?thesis by simp
qed

lemma loop_alarm_calls:
  assumes "SensorsTask_loop cfg inp s = Some (s', fx)"
  shows "error s \<Longrightarrow> count_list fx AlarmsSetCritical = 1 \<and> AlarmsClear \<notin> set fx"
    and "\<not> error s \<Longrightarrow> count_list fx AlarmsClear = 1 \<and> AlarmsSetCritical \<notin> set fx"
proof -
  have "(error s \<longrightarrow> count_list fx AlarmsSetCritical = 1 \<and> AlarmsClear \<notin> set fx)
      \<and> (\<not> error s \<longrightarrow> count_list fx AlarmsClear = 1 \<and> AlarmsSetCritical \<notin> set fx)"
    using assms
  proof (cases rule: SensorsTask_loop_cases)
    case (abandoned s1 fx1 ts1 fx2)
    from loop_top_Some(10,11) [OF abandoned(1)] abandoned(3,4)
    show ?thesis by (cases "error s") auto
  next
    case (completed s1 fx1 ts1 a l fx4)
    from publish_no_alarm [OF completed(4)]
    have "count_list fx4 AlarmsSetCritical = 0" "count_list fx4 AlarmsClear = 0"
      "AlarmsSetCritical \<notin> set fx4" "AlarmsClear \<notin> set fx4"
      by (simp_all add: count_list_0_iff)
    with loop_top_Some(10,11) [OF completed(1)] completed(5)
    show ?thesis by (cases "error s") auto
  qed
  then show "error s \<Longrightarrow> count_list fx AlarmsSetCritical = 1 \<and> AlarmsClear \<notin> set fx"
    and "\<not> error s \<Longrightarrow> count_list fx AlarmsClear = 1 \<and> AlarmsSetCritical \<notin> set fx"
    by blast+
qed

text \<open>
  Where the alarm call stands in the trace of an iteration: it ends the calls of lines 195
  to 203, and everything the iteration publishes comes after it.
\<close>

lemma loop_alarm_first:
  assumes "SensorsTask_loop cfg inp s = Some (s', fx)"
  shows "\<exists>rest. fx = (if error s
            then [PIOS_WDG_UpdateFlag, vTaskDelayUntil (SENSOR_PERIOD div portTICK_RATE_MS cfg),
                  AlarmsSetCritical]
            else [AlarmsClear]) @ rest
       \<and> AlarmsSetCritical \<notin> set rest \<and> AlarmsClear \<notin> set rest
       \<and> accels_published rest = accels_published fx
       \<and> gyros_published rest = gyros_published fx
       \<and> magnetometer_published rest = magnetometer_published fx
       \<and> frames_sent rest = frames_sent fx"
  using assms
proof (cases rule: SensorsTask_loop_cases)
  case (abandoned s1 fx1 ts1 fx2)
  from loop_top_Some(10,11) [OF abandoned(1)] abandoned(3,4)
  show ?thesis by (cases "error s") auto
next
  case (completed s1 fx1 ts1 a l fx4)
  from loop_top_Some(10,11) [OF completed(1)] completed(5) publish_no_alarm [OF completed(4)]
  show ?thesis by (cases "error s") auto
qed

lemma wait_fifo_timeout:
  "wait_fifo t0 err rs ts = Some (read_good, err', rs', ts') \<Longrightarrow> err' \<Longrightarrow>
     err \<or> (\<exists>t. t \<in> set ts \<and> of_nat SENSOR_PERIOD < t - t0)"
  by (induction t0 err rs ts rule: wait_fifo.induct) (auto split: if_splits)

lemma wait_fifo_ticks:
  "wait_fifo t0 err rs ts = Some (read_good, err', rs', ts') \<Longrightarrow> set ts' \<subseteq> set ts"
  by (induction t0 err rs ts rule: wait_fifo.induct) (auto split: if_splits)

lemma abandoned_past_budget:
  assumes "SensorsTask_loop cfg inp s = Some (s', fx)" and "error s'"
  shows "\<exists>t. t \<in> set (tick_reads inp) \<and> of_nat SENSOR_PERIOD < t - lastSysTime s'"
  using assms(1)
proof (cases rule: SensorsTask_loop_cases)
  case (completed s1 fx1 ts1 a l fx4)
  with assms(2) show ?thesis by simp
next
  case (abandoned s1 fx1 ts1 fx2)
  have ts1: "set ts1 \<subseteq> set (tick_reads inp)"
    using abandoned(1) by (auto simp: loop_top_def split: if_splits list.splits)
  have ok: "\<not> error s1" using loop_top_Some(1) [OF abandoned(1)] .
  have last: "lastSysTime s' = lastSysTime s1" using abandoned(2) by simp
  from assms(1) abandoned(1) obtain r where r: "bma180_section cfg s1 inp ts1 = Some r"
    by (auto simp: SensorsTask_loop_def split: option.splits)
  show ?thesis
  proof (cases r)
    case (Inl fx2')
    with r obtain rg rs ts' where
      "wait_fifo (lastSysTime s1) (error s1) (bma180_fifo inp) ts1 = Some (rg, True, rs, ts')"
      by (auto simp: bma180_section_def split: if_splits option.splits prod.splits)
    from wait_fifo_timeout [OF this] ok ts1 last show ?thesis by auto
  next
    case (Inr a)
    obtain aacc asamples abuf ts2 where a: "a = (aacc, asamples, abuf, ts2)" by (cases a) auto
    have ts2: "set ts2 \<subseteq> set ts1"
      using r Inr a
      by (auto simp: bma180_section_def split: if_splits option.splits prod.splits
          dest: wait_fifo_ticks)
    from assms(1,2) abandoned(1) r Inr publish_error ok
    obtain fx3 where g: "gyro_section cfg s1 inp a = Some (Inl fx3)"
      by (auto simp: SensorsTask_loop_def split: option.splits sum.splits prod.splits)
    then obtain rg rs ts' where
      "wait_fifo (lastSysTime s1) (error s1) (mpu6000_fifo inp) ts2 = Some (rg, True, rs, ts')"
      unfolding a
      by (auto simp: gyro_section_def split: if_splits option.splits prod.splits)
    from wait_fifo_timeout [OF this] ok ts1 ts2 last show ?thesis by auto
  qed
qed

text \<open>
  An iteration returns: when some tick count read during it is past the budget (the wait
  loops end at the latest there), and, without an error, when each FIFO has a sample at
  its first read.
\<close>

lemma wait_fifo_error:
  "\<exists>read_good rs' ts'. wait_fifo t0 True rs ts = Some (read_good, True, rs', ts')"
proof (cases rs)
  case Nil
  then show ?thesis by (cases ts) simp_all
next
  case (Cons r rs')
  then show ?thesis by (cases r; cases ts) simp_all
qed

lemma wait_fifo_error_stays:
  "wait_fifo t0 True rs ts = Some (read_good, err', rs', ts') \<Longrightarrow> err'"
  using wait_fifo_error [of t0 rs ts] by auto

lemma wait_fifo_returns:
  "\<exists>t. t \<in> set ts \<and> of_nat SENSOR_PERIOD < t - t0 \<Longrightarrow> \<exists>r. wait_fifo t0 err rs ts = Some r"
proof (induction ts arbitrary: err rs)
  case Nil
  then show ?case by simp
next
  case (Cons t ts)
  show ?case
  proof (cases err)
    case True
    then show ?thesis using wait_fifo_error [of t0 rs "t # ts"] by auto
  next
    case False
    have step: "\<exists>r. wait_fifo t0 (if of_nat SENSOR_PERIOD < t - t0 then True else False) rs' ts = Some r"
      for rs' :: "'a option list"
    proof (cases "of_nat SENSOR_PERIOD < t - t0")
      case True
      then show ?thesis using wait_fifo_error [of t0 rs' ts] by auto
    next
      case False
      with Cons.prems have "\<exists>t. t \<in> set ts \<and> of_nat SENSOR_PERIOD < t - t0" by auto
      from Cons.IH [OF this] False show ?thesis by simp
    qed
    show ?thesis
    proof (cases rs)
      case Nil
      with False step [of "[]"] show ?thesis by simp
    next
      case (Cons r rs')
      with False step [of rs'] show ?thesis by (cases r) auto
    qed
  qed
qed

lemma wait_fifo_keeps_late:
  "wait_fifo t0 err rs ts = Some (read_good, False, rs', ts') \<Longrightarrow>
     t \<in> set ts \<Longrightarrow> of_nat SENSOR_PERIOD < t - t0 \<Longrightarrow> t \<in> set ts'"
  by (induction t0 err rs ts rule: wait_fifo.induct)
    (auto split: if_splits dest: wait_fifo_error_stays)

lemma SensorsTask_loop_returns:
  assumes "loop_top cfg s (tick_reads inp) = Some (s1, fx1, ts1)"
    and "t \<in> set ts1" and "of_nat SENSOR_PERIOD < t - lastSysTime s1"
  shows "\<exists>r. SensorsTask_loop cfg inp s = Some r"
proof -
  have late: "\<exists>t. t \<in> set ts1 \<and> of_nat SENSOR_PERIOD < t - lastSysTime s1"
    using assms(2,3) by blast
  have "\<exists>r. bma180_section cfg s1 inp ts1 = Some r"
    using wait_fifo_returns [OF late, of "error s1" "bma180_fifo inp"]
    by (auto simp: bma180_section_def split: prod.splits option.splits)
  then obtain r where r: "bma180_section cfg s1 inp ts1 = Some r" ..
  show ?thesis
  proof (cases r)
    case (Inl fx2)
    with assms(1) r show ?thesis by (simp add: SensorsTask_loop_def)
  next
    case (Inr a)
    obtain aacc asamples abuf ts2 where a: "a = (aacc, asamples, abuf, ts2)" by (cases a) auto
    have "t \<in> set ts2"
      using r Inr a assms(2,3)
      by (auto simp: bma180_section_def split: if_splits option.splits prod.splits
          dest: wait_fifo_keeps_late)
    with assms(3) have late2: "\<exists>t. t \<in> set ts2 \<and> of_nat SENSOR_PERIOD < t - lastSysTime s1"
      by blast
    have "\<exists>g. gyro_section cfg s1 inp a = Some g"
      unfolding a using wait_fifo_returns [OF late2, of "error s1" "mpu6000_fifo inp"]
      by (auto simp: gyro_section_def split: prod.splits option.splits)
    then obtain g where g: "gyro_section cfg s1 inp a = Some g" ..
    with assms(1) r Inr show ?thesis
      by (cases g; cases "publish cfg inp s1 (projr g)") (auto simp: SensorsTask_loop_def)
  qed
qed

lemma SensorsTask_loop_ready:
  assumes "loop_top cfg s (tick_reads inp) = Some (s1, fx1, ts1)"
    and "PIOS_MPU6000_ACCEL cfg \<or> (\<exists>d rs. bma180_fifo inp = Some d # rs)"
    and "\<not> PIOS_INCLUDE_MPU6000 cfg \<or> (\<exists>d rs. mpu6000_fifo inp = Some d # rs)"
  shows "\<exists>s' fx. SensorsTask_loop cfg inp s = Some (s', fx) \<and> \<not> error s'"
proof -
  have ok: "\<not> error s1" using loop_top_Some(1) [OF assms(1)] .
  have "\<exists>a. bma180_section cfg s1 inp ts1 = Some (Inr a)"
    using assms(2) ok by (auto simp: bma180_section_def split: prod.splits)
  then obtain a where a: "bma180_section cfg s1 inp ts1 = Some (Inr a)" ..
  have "\<exists>l. gyro_section cfg s1 inp a = Some (Inr l)"
    using assms(3) ok
    by (cases a) (auto simp: gyro_section_def split: prod.splits)
  then obtain l where l: "gyro_section cfg s1 inp a = Some (Inr l)" ..
  obtain s' fx4 where p: "publish cfg inp s1 l = (s', fx4)" by (cases "publish cfg inp s1 l")
  from assms(1) a l p have "SensorsTask_loop cfg inp s = Some (s', fx1 @ fx4)"
    by (simp add: SensorsTask_loop_def)
  moreover have "\<not> error s'" using publish_error [OF p] ok by simp
  ultimately show ?thesis by blast
qed

text \<open>
  C2, as the code has it. An iteration that ends with \<^verbatim>\<open>error\<close> set (a tick count read
  after a failed FIFO read was more than \<^verbatim>\<open>SENSOR_PERIOD\<close> past \<^verbatim>\<open>lastSysTime\<close>:
  \<open>abandoned_past_budget\<close>) publishes no accel, gyro or magnetometer measurement and sends
  no frame. The next iteration sets the alarm to critical exactly once and does not clear
  it: its calls are the watchdog kick, the delay and \<^verbatim>\<open>AlarmsSet\<close> of lines 196 to 199,
  then calls among which there is no alarm call. When each FIFO has a sample at its first
  read, that iteration returns without an error; whenever it ends without an error it has
  published one accel and one gyro measurement, both after the \<^verbatim>\<open>AlarmsSet\<close> and with
  no \<^verbatim>\<open>AlarmsClear\<close> before or after them in the iteration, so with the alarm critical.
  The iteration after it begins with \<^verbatim>\<open>AlarmsClear\<close>, its only alarm call.
\<close>

theorem timeout_recovery:
  assumes "SensorsTask_loop cfg i1 s = Some (s1, fx1)" and "error s1"
  shows "accels_published fx1 = [] \<and> gyros_published fx1 = []
     \<and> magnetometer_published fx1 = [] \<and> frames_sent fx1 = []
     \<and> (tick_reads i2 \<noteq> []
          \<and> (PIOS_MPU6000_ACCEL cfg \<or> (\<exists>d rs. bma180_fifo i2 = Some d # rs))
          \<and> (\<not> PIOS_INCLUDE_MPU6000 cfg \<or> (\<exists>d rs. mpu6000_fifo i2 = Some d # rs)) \<longrightarrow>
        (\<exists>s2 fx2. SensorsTask_loop cfg i2 s1 = Some (s2, fx2) \<and> \<not> error s2))
     \<and> (SensorsTask_loop cfg i2 s1 = Some (s2, fx2) \<longrightarrow>
          (\<exists>rest2. fx2 = [PIOS_WDG_UpdateFlag,
                          vTaskDelayUntil (SENSOR_PERIOD div portTICK_RATE_MS cfg),
                          AlarmsSetCritical] @ rest2
             \<and> AlarmsSetCritical \<notin> set rest2 \<and> AlarmsClear \<notin> set rest2
             \<and> (\<not> error s2 \<longrightarrow>
                  (\<exists>a g. accels_published rest2 = [a] \<and> gyros_published rest2 = [g])))
          \<and> count_list fx2 AlarmsSetCritical = 1 \<and> AlarmsClear \<notin> set fx2
          \<and> (\<not> error s2 \<longrightarrow>
               (\<exists>a g. accels_published fx2 = [a] \<and> gyros_published fx2 = [g])
               \<and> (SensorsTask_loop cfg i3 s2 = Some (s3, fx3) \<longrightarrow>
                    (\<exists>rest3. fx3 = AlarmsClear # rest3
                       \<and> AlarmsClear \<notin> set rest3 \<and> AlarmsSetCritical \<notin> set rest3)
                    \<and> count_list fx3 AlarmsClear = 1 \<and> AlarmsSetCritical \<notin> set fx3)))"
proof -
  note quiet = abandoned_publishes_nothing [OF assms]
  have ready: "\<exists>s2 fx2. SensorsTask_loop cfg i2 s1 = Some (s2, fx2) \<and> \<not> error s2"
    if h: "tick_reads i2 \<noteq> []
          \<and> (PIOS_MPU6000_ACCEL cfg \<or> (\<exists>d rs. bma180_fifo i2 = Some d # rs))
          \<and> (\<not> PIOS_INCLUDE_MPU6000 cfg \<or> (\<exists>d rs. mpu6000_fifo i2 = Some d # rs))"
  proof -
    from h assms(2) have "\<exists>r. loop_top cfg s1 (tick_reads i2) = Some r"
      by (cases "tick_reads i2") (simp_all add: loop_top_def)
    then obtain s' fx' ts' where "loop_top cfg s1 (tick_reads i2) = Some (s', fx', ts')"
      by auto
    from SensorsTask_loop_ready [OF this] h show ?thesis by blast
  qed
  have next_iteration:
    "(\<exists>rest2. fx2 = [PIOS_WDG_UpdateFlag,
                     vTaskDelayUntil (SENSOR_PERIOD div portTICK_RATE_MS cfg),
                     AlarmsSetCritical] @ rest2
        \<and> AlarmsSetCritical \<notin> set rest2 \<and> AlarmsClear \<notin> set rest2
        \<and> (\<not> error s2 \<longrightarrow>
             (\<exists>a g. accels_published rest2 = [a] \<and> gyros_published rest2 = [g])))
     \<and> count_list fx2 AlarmsSetCritical = 1 \<and> AlarmsClear \<notin> set fx2
     \<and> (\<not> error s2 \<longrightarrow>
          (\<exists>a g. accels_published fx2 = [a] \<and> gyros_published fx2 = [g])
          \<and> (SensorsTask_loop cfg i3 s2 = Some (s3, fx3) \<longrightarrow>
               (\<exists>rest3. fx3 = AlarmsClear # rest3
                  \<and> AlarmsClear \<notin> set rest3 \<and> AlarmsSetCritical \<notin> set rest3)
               \<and> count_list fx3 AlarmsClear = 1 \<and> AlarmsSetCritical \<notin> set fx3))"
    if it2: "SensorsTask_loop cfg i2 s1 = Some (s2, fx2)"
  proof -
    note raised = loop_alarm_calls(1) [OF it2 assms(2)]
    from loop_alarm_first [OF it2] assms(2) obtain rest2 where
      rest2: "fx2 = [PIOS_WDG_UpdateFlag,
                vTaskDelayUntil (SENSOR_PERIOD div portTICK_RATE_MS cfg),
                AlarmsSetCritical] @ rest2"
        "AlarmsSetCritical \<notin> set rest2" "AlarmsClear \<notin> set rest2"
      and same: "accels_published rest2 = accels_published fx2"
        "gyros_published rest2 = gyros_published fx2"
      by auto
    have published: "\<exists>a g. accels_published fx2 = [a] \<and> gyros_published fx2 = [g]"
      if ok: "\<not> error s2"
      using completed_publishes [OF it2 ok] .
    have position: "\<exists>rest2. fx2 = [PIOS_WDG_UpdateFlag,
                     vTaskDelayUntil (SENSOR_PERIOD div portTICK_RATE_MS cfg),
                     AlarmsSetCritical] @ rest2
        \<and> AlarmsSetCritical \<notin> set rest2 \<and> AlarmsClear \<notin> set rest2
        \<and> (\<not> error s2 \<longrightarrow>
             (\<exists>a g. accels_published rest2 = [a] \<and> gyros_published rest2 = [g]))"
      using rest2 same published by (intro exI [of _ rest2]) simp
    have cleared: "(\<exists>rest3. fx3 = AlarmsClear # rest3
                  \<and> AlarmsClear \<notin> set rest3 \<and> AlarmsSetCritical \<notin> set rest3)
               \<and> count_list fx3 AlarmsClear = 1 \<and> AlarmsSetCritical \<notin> set fx3"
      if ok: "\<not> error s2" and it3: "SensorsTask_loop cfg i3 s2 = Some (s3, fx3)"
      using loop_alarm_first [OF it3] loop_alarm_calls(2) [OF it3 ok] ok by auto
    from position raised published cleared show ?thesis by blast
  qed
  from quiet ready next_iteration show ?thesis by blast
qed

theorem timeout_recovery_witness:
  "\<exists>s1 fx1 s2 fx2 s3 fx3 rest2 rest3.
     SensorsTask_loop build_mpu6000 timeout_input (calibrated 0) = Some (s1, fx1) \<and> error s1
     \<and> SensorsTask_loop build_mpu6000 recovery_input s1 = Some (s2, fx2) \<and> \<not> error s2
     \<and> SensorsTask_loop build_mpu6000 recovery_input s2 = Some (s3, fx3)
     \<and> accels_published fx1 = [] \<and> gyros_published fx1 = []
     \<and> fx2 = [PIOS_WDG_UpdateFlag, vTaskDelayUntil 2, AlarmsSetCritical] @ rest2
     \<and> AlarmsSetCritical \<notin> set rest2 \<and> AlarmsClear \<notin> set rest2
     \<and> (\<exists>a g. accels_published rest2 = [a] \<and> gyros_published rest2 = [g])
     \<and> count_list fx2 AlarmsSetCritical = 1 \<and> AlarmsClear \<notin> set fx2
     \<and> (\<exists>a g. accels_published fx2 = [a] \<and> gyros_published fx2 = [g])
     \<and> fx3 = AlarmsClear # rest3
     \<and> AlarmsClear \<notin> set rest3 \<and> AlarmsSetCritical \<notin> set rest3
     \<and> count_list fx3 AlarmsClear = 1 \<and> AlarmsSetCritical \<notin> set fx3"
proof -
  let ?cfg = build_mpu6000
  let ?s1 = "(calibrated 0)\<lparr>error := True\<rparr>"
  have r1: "SensorsTask_loop ?cfg timeout_input (calibrated 0) = Some (?s1, [AlarmsClear])"
    by (simp add: run_defs)
  have e1: "error ?s1" by simp
  have ready: "tick_reads recovery_input \<noteq> []
      \<and> (PIOS_MPU6000_ACCEL ?cfg \<or> (\<exists>d rs. bma180_fifo recovery_input = Some d # rs))
      \<and> (\<not> PIOS_INCLUDE_MPU6000 ?cfg \<or> (\<exists>d rs. mpu6000_fifo recovery_input = Some d # rs))"
    by (simp add: run_defs)
  note inst = timeout_recovery [OF r1 e1, where ?i2.0 = recovery_input and ?i3.0 = recovery_input]
  from inst [THEN conjunct2, THEN conjunct2, THEN conjunct2, THEN conjunct2, THEN conjunct1] ready
  obtain s2 fx2 where r2: "SensorsTask_loop ?cfg recovery_input ?s1 = Some (s2, fx2)"
    and e2: "\<not> error s2"
    by blast
  have "loop_top ?cfg s2 (tick_reads recovery_input) = Some (s2, [AlarmsClear], tick_reads recovery_input)"
    using e2 by (simp add: loop_top_def)
  from SensorsTask_loop_ready [OF this] ready
  obtain s3 fx3 where r3: "SensorsTask_loop ?cfg recovery_input s2 = Some (s3, fx3)"
    by blast
  have period: "SENSOR_PERIOD div portTICK_RATE_MS ?cfg = 2"
    by (simp add: SENSOR_PERIOD_def build_mpu6000_def)
  note all = inst [where ?s2.0 = s2 and ?fx2.0 = fx2 and ?s3.0 = s3 and ?fx3.0 = fx3,
      unfolded period]
  from all r2 e2 obtain rest2 where
    second: "fx2 = [PIOS_WDG_UpdateFlag, vTaskDelayUntil 2, AlarmsSetCritical] @ rest2"
      "AlarmsSetCritical \<notin> set rest2" "AlarmsClear \<notin> set rest2"
      "\<exists>a g. accels_published rest2 = [a] \<and> gyros_published rest2 = [g]"
    by blast
  from all r2 e2 r3 obtain rest3 where
    third: "fx3 = AlarmsClear # rest3" "AlarmsClear \<notin> set rest3" "AlarmsSetCritical \<notin> set rest3"
    by blast
  from all r2 e2 r3
  have counts: "accels_published [AlarmsClear] = [] \<and> gyros_published [AlarmsClear] = []
     \<and> count_list fx2 AlarmsSetCritical = 1 \<and> AlarmsClear \<notin> set fx2
     \<and> (\<exists>a g. accels_published fx2 = [a] \<and> gyros_published fx2 = [g])
     \<and> count_list fx3 AlarmsClear = 1 \<and> AlarmsSetCritical \<notin> set fx3"
    by blast
  show ?thesis
    apply (rule exI [of _ ?s1], rule exI [of _ "[AlarmsClear]"])
    apply (rule exI [of _ s2], rule exI [of _ fx2], rule exI [of _ s3], rule exI [of _ fx3])
    apply (rule exI [of _ rest2], rule exI [of _ rest3])
    using r1 e1 r2 e2 r3 second third counts
    apply (intro conjI)
    apply blast+
    done
qed

text \<open>
  C2 as stated has the alarm cleared by the cycle in which the read succeeds again. In
  the code that cycle is the one that raises it: after a timeout, the iteration that
  publishes again calls \<^verbatim>\<open>AlarmsSet\<close> at its top and never \<^verbatim>\<open>AlarmsClear\<close>.
\<close>

theorem timeout_recovery_counterexample:
  "map_option snd (SensorsTask_run build_mpu6000
      [Iteration timeout_input, Iteration recovery_input] (Running (calibrated 0)))
   = Some [AlarmsClear,
       PIOS_WDG_UpdateFlag, vTaskDelayUntil 2, AlarmsSetCritical,
       AccelsSet \<lparr>accels_x = Finite 1, accels_y = Finite 2, accels_z = Finite 3,
         accels_temperature = Finite 37\<rparr>,
       GyrosSet \<lparr>gyros_x = Finite 20, gyros_y = Finite 10, gyros_z = Finite (- 30),
         gyros_temperature = Finite 37\<rparr>,
       PIOS_WDG_UpdateFlag, vTaskDelayUntil 2]"
  by (simp add: run_defs)

subsection \<open>Telemetry framing\<close>

lemma mag_statics:
  "mag_scale s1 = mag_scale s \<Longrightarrow> mag_bias s1 = mag_bias s \<Longrightarrow> mag s1 v = mag s v"
  by (simp add: mag_def)

lemma completed_frame:
  assumes "SensorsTask_loop cfg inp s = Some (s', fx)" and "\<not> error s'"
    and "pios_com_aux_id s \<noteq> 0"
  shows "\<exists>a g t. accels_published fx = [a] \<and> gyros_published fx = [g]
     \<and> (\<not> error s \<longrightarrow> t = lastSysTime s)
     \<and> (error s \<longrightarrow> (\<exists>t0 ts. tick_reads inp = t0 # ts
            \<and> t = t0 + of_nat (SENSOR_PERIOD div portTICK_RATE_MS cfg)))
     \<and> magnetometer_published fx = (case hmc5883_values inp of None \<Rightarrow> [] | Some v \<Rightarrow> [mag s v])
     \<and> frames_sent fx =
         [[Byte 0xff, Byte (ucast (drop_bit 8 (t AND 0xff00))), Byte (ucast (t AND 0x00ff))]
          @ [Float32 (accels_x a), Float32 (accels_y a), Float32 (accels_z a)]
          @ [Float32 (gyros_x g), Float32 (gyros_y g), Float32 (gyros_z g),
             Float32 (gyros_temperature g)]
          @ (case hmc5883_values inp of
               None \<Rightarrow> []
             | Some v \<Rightarrow> [Byte 0x01, Float32 (magnetometer_x (mag s v)),
                          Float32 (magnetometer_y (mag s v)), Float32 (magnetometer_z (mag s v))])
          @ (if gps_updated s then Byte 0x02 # map Byte (gps_object inp) else [])
          @ (if baro_updated s then Byte 0x03 # map Byte (baro_object inp) else [])]"
  using assms(1)
proof (cases rule: SensorsTask_loop_cases)
  case (abandoned s1 fx1 ts1 fx2)
  with assms(2) show ?thesis by simp
next
  case (completed s1 fx1 ts1 a l fx4)
  note top = loop_top_Some [OF completed(1)]
  note quiet = loop_top_publishes_nothing [OF completed(1)]
  let ?a = "accelsData cfg inp s1 l" and ?g = "gyrosData cfg inp s1 l"
  have m: "mag s1 = mag s" using top(8,9) by (intro ext mag_statics)
  have t: "(\<not> error s \<longrightarrow> lastSysTime s1 = lastSysTime s)
     \<and> (error s \<longrightarrow> (\<exists>t0 ts. tick_reads inp = t0 # ts
            \<and> lastSysTime s1 = t0 + of_nat (SENSOR_PERIOD div portTICK_RATE_MS cfg)))"
    using completed(1) by (auto simp: loop_top_def split: if_splits list.splits)
  have a: "accels_published fx = [?a]" and g: "gyros_published fx = [?g]"
    using completed(5) quiet publish_accels [OF completed(4)] publish_gyros [OF completed(4)]
    by simp_all
  have mp: "magnetometer_published fx = (case hmc5883_values inp of None \<Rightarrow> [] | Some v \<Rightarrow> [mag s v])"
    using completed(5) quiet publish_magnetometer [OF completed(4)] m
    by (simp split: option.splits)
  have "frames_sent fx = [message s1 inp ?a ?g (map_option (mag s) (hmc5883_values inp))]"
    using completed(5) quiet publish_frames [OF completed(4)] top(4) assms(3) m by simp
  then have f: "frames_sent fx =
         [[Byte 0xff, Byte (ucast (drop_bit 8 (lastSysTime s1 AND 0xff00))),
           Byte (ucast (lastSysTime s1 AND 0x00ff))]
          @ [Float32 (accels_x ?a), Float32 (accels_y ?a), Float32 (accels_z ?a)]
          @ [Float32 (gyros_x ?g), Float32 (gyros_y ?g), Float32 (gyros_z ?g),
             Float32 (gyros_temperature ?g)]
          @ (case hmc5883_values inp of
               None \<Rightarrow> []
             | Some v \<Rightarrow> [Byte 0x01, Float32 (magnetometer_x (mag s v)),
                          Float32 (magnetometer_y (mag s v)), Float32 (magnetometer_z (mag s v))])
          @ (if gps_updated s then Byte 0x02 # map Byte (gps_object inp) else [])
          @ (if baro_updated s then Byte 0x03 # map Byte (baro_object inp) else [])]"
    using top(2,3) by (simp add: message_def split: option.splits)
  show ?thesis
    by (rule exI [of _ ?a], rule exI [of _ ?g], rule exI [of _ "lastSysTime s1"])
      (intro conjI; (rule a g mp f | rule t [THEN conjunct1] | rule t [THEN conjunct2]))
qed

text \<open>
  C6. A completed iteration with a sink attached sends exactly one frame: the byte
  \<open>0xFF\<close>, the high and the low byte of the low 16 bits of \<^verbatim>\<open>lastSysTime\<close>, the three
  floats of the published accel measurement, the four floats of the published gyro
  measurement (x, y, z, temperature), then the block tagged \<open>0x01\<close> with the published
  magnetometer measurement when the magnetometer had new data, the block tagged \<open>0x02\<close>
  with the GPS object when \<^verbatim>\<open>gps_updated\<close> was set, and the block tagged \<open>0x03\<close> with the
  altitude object when \<^verbatim>\<open>baro_updated\<close> was set, in this order. With none of the three
  the frame is the header and the two fixed blocks only.
\<close>

theorem telemetry_frame:
  assumes "SensorsTask_loop cfg inp s = Some (s', fx)" and "\<not> error s'"
    and "pios_com_aux_id s \<noteq> 0"
  shows "\<exists>a g t. accels_published fx = [a] \<and> gyros_published fx = [g]
     \<and> (\<not> error s \<longrightarrow> t = lastSysTime s)
     \<and> (error s \<longrightarrow> (\<exists>t0 ts. tick_reads inp = t0 # ts
            \<and> t = t0 + of_nat (SENSOR_PERIOD div portTICK_RATE_MS cfg)))
     \<and> magnetometer_published fx = (case hmc5883_values inp of None \<Rightarrow> [] | Some v \<Rightarrow> [mag s v])
     \<and> frames_sent fx =
         [[Byte 0xff, Byte (ucast (drop_bit 8 (t AND 0xff00))), Byte (ucast (t AND 0x00ff))]
          @ [Float32 (accels_x a), Float32 (accels_y a), Float32 (accels_z a)]
          @ [Float32 (gyros_x g), Float32 (gyros_y g), Float32 (gyros_z g),
             Float32 (gyros_temperature g)]
          @ (case hmc5883_values inp of
               None \<Rightarrow> []
             | Some v \<Rightarrow> [Byte 0x01, Float32 (magnetometer_x (mag s v)),
                          Float32 (magnetometer_y (mag s v)), Float32 (magnetometer_z (mag s v))])
          @ (if gps_updated s then Byte 0x02 # map Byte (gps_object inp) else [])
          @ (if baro_updated s then Byte 0x03 # map Byte (baro_object inp) else [])]
     \<and> (hmc5883_values inp = None \<and> \<not> gps_updated s \<and> \<not> baro_updated s \<longrightarrow>
          frames_sent fx =
            [[Byte 0xff, Byte (ucast (drop_bit 8 (t AND 0xff00))), Byte (ucast (t AND 0x00ff)),
              Float32 (accels_x a), Float32 (accels_y a), Float32 (accels_z a),
              Float32 (gyros_x g), Float32 (gyros_y g), Float32 (gyros_z g),
              Float32 (gyros_temperature g)]])"
proof -
  from completed_frame [OF assms] obtain a g t where
    a: "accels_published fx = [a]" and g: "gyros_published fx = [g]"
    and t1: "\<not> error s \<longrightarrow> t = lastSysTime s"
    and t2: "error s \<longrightarrow> (\<exists>t0 ts. tick_reads inp = t0 # ts
            \<and> t = t0 + of_nat (SENSOR_PERIOD div portTICK_RATE_MS cfg))"
    and m: "magnetometer_published fx = (case hmc5883_values inp of None \<Rightarrow> [] | Some v \<Rightarrow> [mag s v])"
    and f: "frames_sent fx =
         [[Byte 0xff, Byte (ucast (drop_bit 8 (t AND 0xff00))), Byte (ucast (t AND 0x00ff))]
          @ [Float32 (accels_x a), Float32 (accels_y a), Float32 (accels_z a)]
          @ [Float32 (gyros_x g), Float32 (gyros_y g), Float32 (gyros_z g),
             Float32 (gyros_temperature g)]
          @ (case hmc5883_values inp of
               None \<Rightarrow> []
             | Some v \<Rightarrow> [Byte 0x01, Float32 (magnetometer_x (mag s v)),
                          Float32 (magnetometer_y (mag s v)), Float32 (magnetometer_z (mag s v))])
          @ (if gps_updated s then Byte 0x02 # map Byte (gps_object inp) else [])
          @ (if baro_updated s then Byte 0x03 # map Byte (baro_object inp) else [])]"
    by blast
  have plain: "frames_sent fx =
            [[Byte 0xff, Byte (ucast (drop_bit 8 (t AND 0xff00))), Byte (ucast (t AND 0x00ff)),
              Float32 (accels_x a), Float32 (accels_y a), Float32 (accels_z a),
              Float32 (gyros_x g), Float32 (gyros_y g), Float32 (gyros_z g),
              Float32 (gyros_temperature g)]]"
    if "hmc5883_values inp = None \<and> \<not> gps_updated s \<and> \<not> baro_updated s"
    unfolding f using that by simp
  show ?thesis
    by (rule exI [of _ a], rule exI [of _ g], rule exI [of _ t])
      (intro conjI impI; (rule a g m f t1 [rule_format] t2 [rule_format] plain; assumption?))
qed

theorem telemetry_frame_witness:
  "(\<exists>s' fx. SensorsTask_loop build_mpu6000 spec_example_input
        ((calibrated 1)\<lparr>lastSysTime := 0x1234\<rparr>) = Some (s', fx)
      \<and> frames_sent fx =
          [[Byte 0xff, Byte 0x12, Byte 0x34,
            Float32 (Finite 1), Float32 (Finite 1), Float32 (Finite 1),
            Float32 (Finite 2), Float32 (Finite 2), Float32 (Finite 2), Float32 (Finite 30)]])
   \<and> (\<exists>s' fx. SensorsTask_loop build_mpu6000 tagged_example_input
        ((calibrated 1)\<lparr>lastSysTime := 0x1234, gps_updated := True, baro_updated := True\<rparr>)
        = Some (s', fx)
      \<and> frames_sent fx =
          [[Byte 0xff, Byte 0x12, Byte 0x34,
            Float32 (Finite 1), Float32 (Finite 1), Float32 (Finite 1),
            Float32 (Finite 2), Float32 (Finite 2), Float32 (Finite 2), Float32 (Finite 30),
            Byte 0x01, Float32 (Finite 5), Float32 (Finite 4), Float32 (Finite 6),
            Byte 0x02, Byte 0xAA, Byte 0x03, Byte 0xBB, Byte 0xCC]])"
proof
  let ?s = "(calibrated 1)\<lparr>lastSysTime := 0x1234\<rparr>"
  let ?A = "\<lparr>accels_x = Finite 1, accels_y = Finite 1, accels_z = Finite 1,
    accels_temperature = Finite 30\<rparr>"
  let ?G = "\<lparr>gyros_x = Finite 2, gyros_y = Finite 2, gyros_z = Finite 2,
    gyros_temperature = Finite 30\<rparr>"
  obtain s' fx where run: "SensorsTask_loop build_mpu6000 spec_example_input ?s = Some (s', fx)"
    and ok: "\<not> error s'" and A: "accels_published fx = [?A]" and G: "gyros_published fx = [?G]"
    by (simp add: frame_defs)
  have s: "pios_com_aux_id ?s \<noteq> 0" "\<not> error ?s" "\<not> gps_updated ?s" "\<not> baro_updated ?s"
    "hmc5883_values spec_example_input = None"
    by (simp_all add: frame_defs)
  from telemetry_frame [OF run ok s(1)] A G s(2-)
  have "frames_sent fx =
          [[Byte 0xff, Byte (ucast (drop_bit 8 (lastSysTime ?s AND 0xff00))),
            Byte (ucast (lastSysTime ?s AND 0x00ff)),
            Float32 (Finite 1), Float32 (Finite 1), Float32 (Finite 1),
            Float32 (Finite 2), Float32 (Finite 2), Float32 (Finite 2), Float32 (Finite 30)]]"
    by auto
  then have "frames_sent fx =
          [[Byte 0xff, Byte 0x12, Byte 0x34,
            Float32 (Finite 1), Float32 (Finite 1), Float32 (Finite 1),
            Float32 (Finite 2), Float32 (Finite 2), Float32 (Finite 2), Float32 (Finite 30)]]"
    by simp
  with run show "\<exists>s' fx. SensorsTask_loop build_mpu6000 spec_example_input ?s = Some (s', fx)
      \<and> frames_sent fx =
          [[Byte 0xff, Byte 0x12, Byte 0x34,
            Float32 (Finite 1), Float32 (Finite 1), Float32 (Finite 1),
            Float32 (Finite 2), Float32 (Finite 2), Float32 (Finite 2), Float32 (Finite 30)]]"
    by blast
next
  let ?s = "(calibrated 1)\<lparr>lastSysTime := 0x1234, gps_updated := True, baro_updated := True\<rparr>"
  let ?A = "\<lparr>accels_x = Finite 1, accels_y = Finite 1, accels_z = Finite 1,
    accels_temperature = Finite 30\<rparr>"
  let ?G = "\<lparr>gyros_x = Finite 2, gyros_y = Finite 2, gyros_z = Finite 2,
    gyros_temperature = Finite 30\<rparr>"
  obtain s' fx where run: "SensorsTask_loop build_mpu6000 tagged_example_input ?s = Some (s', fx)"
    and ok: "\<not> error s'" and A: "accels_published fx = [?A]" and G: "gyros_published fx = [?G]"
    by (simp add: frame_defs)
  have s: "pios_com_aux_id ?s \<noteq> 0" "\<not> error ?s" "gps_updated ?s" "baro_updated ?s"
    "hmc5883_values tagged_example_input = Some (4, 5, - 6)"
    "gps_object tagged_example_input = [0xAA]" "baro_object tagged_example_input = [0xBB, 0xCC]"
    "mag ?s (4, 5, - 6) = \<lparr>magnetometer_x = Finite 5, magnetometer_y = Finite 4,
       magnetometer_z = Finite 6\<rparr>"
    by (simp_all add: frame_defs)
  from telemetry_frame [OF run ok s(1)] A G s(2-)
  have "frames_sent fx =
          [[Byte 0xff, Byte (ucast (drop_bit 8 (lastSysTime ?s AND 0xff00))),
            Byte (ucast (lastSysTime ?s AND 0x00ff)),
            Float32 (Finite 1), Float32 (Finite 1), Float32 (Finite 1),
            Float32 (Finite 2), Float32 (Finite 2), Float32 (Finite 2), Float32 (Finite 30),
            Byte 0x01, Float32 (Finite 5), Float32 (Finite 4), Float32 (Finite 6),
            Byte 0x02, Byte 0xAA, Byte 0x03, Byte 0xBB, Byte 0xCC]]"
    by auto
  then have "frames_sent fx =
          [[Byte 0xff, Byte 0x12, Byte 0x34,
            Float32 (Finite 1), Float32 (Finite 1), Float32 (Finite 1),
            Float32 (Finite 2), Float32 (Finite 2), Float32 (Finite 2), Float32 (Finite 30),
            Byte 0x01, Float32 (Finite 5), Float32 (Finite 4), Float32 (Finite 6),
            Byte 0x02, Byte 0xAA, Byte 0x03, Byte 0xBB, Byte 0xCC]]"
    by simp
  with run show "\<exists>s' fx. SensorsTask_loop build_mpu6000 tagged_example_input ?s = Some (s', fx)
      \<and> frames_sent fx =
          [[Byte 0xff, Byte 0x12, Byte 0x34,
            Float32 (Finite 1), Float32 (Finite 1), Float32 (Finite 1),
            Float32 (Finite 2), Float32 (Finite 2), Float32 (Finite 2), Float32 (Finite 30),
            Byte 0x01, Float32 (Finite 5), Float32 (Finite 4), Float32 (Finite 6),
            Byte 0x02, Byte 0xAA, Byte 0x03, Byte 0xBB, Byte 0xCC]]"
    by blast
qed

subsection \<open>The GPS and altitude flags\<close>

lemma publish_flags:
  assumes "publish cfg inp s l = (s', fx)"
  shows "gps_updated s' = (gps_updated s \<and> pios_com_aux_id s = 0)"
    and "baro_updated s' = (baro_updated s \<and> pios_com_aux_id s = 0)"
    and "pios_com_aux_id s' = pios_com_aux_id s"
proof -
  have s': "s' = fst (publish cfg inp s l)" using assms by simp
  show "gps_updated s' = (gps_updated s \<and> pios_com_aux_id s = 0)"
    and "baro_updated s' = (baro_updated s \<and> pios_com_aux_id s = 0)"
    and "pios_com_aux_id s' = pios_com_aux_id s"
    unfolding s' by (auto simp: publish_def Let_def)
qed

lemma loop_flags:
  assumes "SensorsTask_loop cfg inp s = Some (s', fx)"
  shows "pios_com_aux_id s' = pios_com_aux_id s"
    and "error s' \<or> pios_com_aux_id s = 0 \<Longrightarrow>
      gps_updated s' = gps_updated s \<and> baro_updated s' = baro_updated s \<and> frames_sent fx = []"
    and "\<not> error s' \<Longrightarrow> pios_com_aux_id s \<noteq> 0 \<Longrightarrow>
      \<not> gps_updated s' \<and> \<not> baro_updated s' \<and> frames_sent fx \<noteq> []"
proof -
  have "pios_com_aux_id s' = pios_com_aux_id s
     \<and> (error s' \<or> pios_com_aux_id s = 0 \<longrightarrow>
          gps_updated s' = gps_updated s \<and> baro_updated s' = baro_updated s \<and> frames_sent fx = [])
     \<and> (\<not> error s' \<and> pios_com_aux_id s \<noteq> 0 \<longrightarrow>
          \<not> gps_updated s' \<and> \<not> baro_updated s' \<and> frames_sent fx \<noteq> [])"
    using assms
  proof (cases rule: SensorsTask_loop_cases)
    case (abandoned s1 fx1 ts1 fx2)
    from loop_top_Some(2-4) [OF abandoned(1)] loop_top_publishes_nothing(4) [OF abandoned(1)]
      abandoned(2-5)
    show ?thesis by auto
  next
    case (completed s1 fx1 ts1 a l fx4)
    from loop_top_Some(2-4) [OF completed(1)] loop_top_publishes_nothing(4) [OF completed(1)]
      publish_flags [OF completed(4)] publish_frames [OF completed(4)] completed(5,6)
    show ?thesis by auto
  qed
  then show "pios_com_aux_id s' = pios_com_aux_id s"
    and "error s' \<or> pios_com_aux_id s = 0 \<Longrightarrow>
      gps_updated s' = gps_updated s \<and> baro_updated s' = baro_updated s \<and> frames_sent fx = []"
    and "\<not> error s' \<Longrightarrow> pios_com_aux_id s \<noteq> 0 \<Longrightarrow>
      \<not> gps_updated s' \<and> \<not> baro_updated s' \<and> frames_sent fx \<noteq> []"
    by blast+
qed

lemma step_Running:
  assumes "SensorsTask_step cfg e (Running s) = Some (t, fx)"
  shows "\<exists>s'. t = Running s' \<and> pios_com_aux_id s' = pios_com_aux_id s
     \<and> (frames_sent fx = [] \<longrightarrow>
          (gps_updated s \<longrightarrow> gps_updated s') \<and> (baro_updated s \<longrightarrow> baro_updated s'))"
proof (cases e)
  case (Iteration inp)
  with assms obtain s' where l: "SensorsTask_loop cfg inp s = Some (s', fx)" and t: "t = Running s'"
    by (auto split: option.splits)
  from loop_flags [OF l] have "pios_com_aux_id s' = pios_com_aux_id s"
    and "frames_sent fx = [] \<longrightarrow>
          (gps_updated s \<longrightarrow> gps_updated s') \<and> (baro_updated s \<longrightarrow> baro_updated s')"
    by blast+
  with t show ?thesis by blast
next
  case (ObjectUpdated obj)
  with assms show ?thesis by (auto simp: sensorsUpdatedCb_def Let_def)
next
  case (SettingsUpdated cal)
  with assms show ?thesis by (auto simp: settingsUpdatedCb_def)
qed

lemma run_flags_kept:
  "SensorsTask_run cfg es (Running s) = Some (t, fx) \<Longrightarrow> frames_sent fx = [] \<Longrightarrow>
     \<exists>s'. t = Running s' \<and> pios_com_aux_id s' = pios_com_aux_id s
       \<and> (gps_updated s \<longrightarrow> gps_updated s') \<and> (baro_updated s \<longrightarrow> baro_updated s')"
proof (induction es arbitrary: s fx)
  case Nil
  then show ?case by auto
next
  case (Cons e es)
  from Cons.prems(1) obtain t1 fx1 fx2 where
    st: "SensorsTask_step cfg e (Running s) = Some (t1, fx1)"
    and rn: "SensorsTask_run cfg es t1 = Some (t, fx2)" and eq: "fx = fx1 @ fx2"
    by (auto split: option.splits)
  from Cons.prems(2) eq have q: "frames_sent fx1 = []" "frames_sent fx2 = []" by simp_all
  from step_Running [OF st] q(1) obtain s1 where s1: "t1 = Running s1"
    "pios_com_aux_id s1 = pios_com_aux_id s"
    "gps_updated s \<longrightarrow> gps_updated s1" "baro_updated s \<longrightarrow> baro_updated s1"
    by blast
  from Cons.IH [OF rn [unfolded s1(1)] q(2)] s1 eq show ?case by auto
qed

text \<open>
  C10. An iteration abandoned after a timeout, or run without a sink, leaves
  \<^verbatim>\<open>gps_updated\<close> and \<^verbatim>\<open>baro_updated\<close> as they were and sends no frame. A completed
  iteration with a sink clears both and sends one frame, which holds the block tagged
  \<open>0x02\<close> with the GPS object when \<^verbatim>\<open>gps_updated\<close> was set and ends with the block
  tagged \<open>0x03\<close> with the altitude object when \<^verbatim>\<open>baro_updated\<close> was set. The callback
  sets the flag of the object that changed. Along any sequence of iterations and
  callbacks of the running task during which no frame is sent, a flag that is set stays
  set: a notification that arrives around failed cycles is in the next frame.
\<close>

theorem updated_flags_consumed:
  "(SensorsTask_loop cfg inp s = Some (s', fx) \<and> (error s' \<or> pios_com_aux_id s = 0) \<longrightarrow>
      gps_updated s' = gps_updated s \<and> baro_updated s' = baro_updated s \<and> frames_sent fx = [])
   \<and> (SensorsTask_loop cfg inp s = Some (s', fx) \<and> \<not> error s' \<and> pios_com_aux_id s \<noteq> 0 \<longrightarrow>
      \<not> gps_updated s' \<and> \<not> baro_updated s'
      \<and> (\<exists>f. frames_sent fx = [f]
           \<and> (gps_updated s \<longrightarrow>
                (\<exists>pre post. f = pre @ Byte 0x02 # map Byte (gps_object inp) @ post))
           \<and> (baro_updated s \<longrightarrow>
                (\<exists>pre. f = pre @ Byte 0x03 # map Byte (baro_object inp)))))
   \<and> (pios_com_aux_id s \<noteq> 0 \<longrightarrow>
        SensorsTask_step cfg (ObjectUpdated GPSPosition) (Running s)
          = Some (Running (s\<lparr>gps_updated := True\<rparr>), [])
      \<and> SensorsTask_step cfg (ObjectUpdated BaroAltitude) (Running s)
          = Some (Running (s\<lparr>baro_updated := True\<rparr>), []))
   \<and> (SensorsTask_run cfg es (Running s) = Some (t, fxs) \<and> frames_sent fxs = [] \<longrightarrow>
        (\<exists>s1. t = Running s1 \<and> (gps_updated s \<longrightarrow> gps_updated s1)
           \<and> (baro_updated s \<longrightarrow> baro_updated s1)))"
proof (intro conjI impI)
  assume h: "SensorsTask_loop cfg inp s = Some (s', fx) \<and> (error s' \<or> pios_com_aux_id s = 0)"
  then show "gps_updated s' = gps_updated s" "baro_updated s' = baro_updated s" "frames_sent fx = []"
    using loop_flags(2) [of cfg inp s s' fx] by blast+
next
  assume h: "SensorsTask_loop cfg inp s = Some (s', fx) \<and> \<not> error s' \<and> pios_com_aux_id s \<noteq> 0"
  then show "\<not> gps_updated s'" "\<not> baro_updated s'"
    using loop_flags(3) [of cfg inp s s' fx] by blast+
  from h have run: "SensorsTask_loop cfg inp s = Some (s', fx)" and ok: "\<not> error s'"
    and sink: "pios_com_aux_id s \<noteq> 0" by simp_all
  from completed_frame [OF run ok sink] obtain a :: AccelsData and g :: GyrosData
    and ts :: portTickType where
    f: "frames_sent fx =
         [[Byte 0xff, Byte (ucast (drop_bit 8 (ts AND 0xff00))), Byte (ucast (ts AND 0x00ff))]
          @ [Float32 (accels_x a), Float32 (accels_y a), Float32 (accels_z a)]
          @ [Float32 (gyros_x g), Float32 (gyros_y g), Float32 (gyros_z g),
             Float32 (gyros_temperature g)]
          @ (case hmc5883_values inp of
               None \<Rightarrow> []
             | Some v \<Rightarrow> [Byte 0x01, Float32 (magnetometer_x (mag s v)),
                          Float32 (magnetometer_y (mag s v)), Float32 (magnetometer_z (mag s v))])
          @ (if gps_updated s then Byte 0x02 # map Byte (gps_object inp) else [])
          @ (if baro_updated s then Byte 0x03 # map Byte (baro_object inp) else [])]"
    by blast
  let ?fixed = "[Byte 0xff, Byte (ucast (drop_bit 8 (ts AND 0xff00))), Byte (ucast (ts AND 0x00ff))]
          @ [Float32 (accels_x a), Float32 (accels_y a), Float32 (accels_z a)]
          @ [Float32 (gyros_x g), Float32 (gyros_y g), Float32 (gyros_z g),
             Float32 (gyros_temperature g)]
          @ (case hmc5883_values inp of
               None \<Rightarrow> []
             | Some v \<Rightarrow> [Byte 0x01, Float32 (magnetometer_x (mag s v)),
                          Float32 (magnetometer_y (mag s v)), Float32 (magnetometer_z (mag s v))])"
  let ?gps = "if gps_updated s then Byte 0x02 # map Byte (gps_object inp) else []"
  let ?baro = "if baro_updated s then Byte 0x03 # map Byte (baro_object inp) else []"
  have f': "frames_sent fx = [?fixed @ ?gps @ ?baro]" unfolding f by simp
  have "?fixed @ ?gps @ ?baro = ?fixed @ Byte 0x02 # map Byte (gps_object inp) @ ?baro"
    if "gps_updated s" using that by simp
  then have gps: "gps_updated s \<longrightarrow>
      (\<exists>pre post. ?fixed @ ?gps @ ?baro = pre @ Byte 0x02 # map Byte (gps_object inp) @ post)"
    by blast
  have "?fixed @ ?gps @ ?baro = (?fixed @ ?gps) @ Byte 0x03 # map Byte (baro_object inp)"
    if "baro_updated s" using that by simp
  then have baro: "baro_updated s \<longrightarrow>
      (\<exists>pre. ?fixed @ ?gps @ ?baro = pre @ Byte 0x03 # map Byte (baro_object inp))"
    by blast
  show "\<exists>f. frames_sent fx = [f]
           \<and> (gps_updated s \<longrightarrow>
                (\<exists>pre post. f = pre @ Byte 0x02 # map Byte (gps_object inp) @ post))
           \<and> (baro_updated s \<longrightarrow>
                (\<exists>pre. f = pre @ Byte 0x03 # map Byte (baro_object inp)))"
    by (rule exI [of _ "?fixed @ ?gps @ ?baro"]) (intro conjI; (rule f' gps baro))
next
  assume "pios_com_aux_id s \<noteq> 0"
  then show "SensorsTask_step cfg (ObjectUpdated GPSPosition) (Running s)
          = Some (Running (s\<lparr>gps_updated := True\<rparr>), [])"
    and "SensorsTask_step cfg (ObjectUpdated BaroAltitude) (Running s)
          = Some (Running (s\<lparr>baro_updated := True\<rparr>), [])"
    by (simp_all add: sensorsUpdatedCb_def)
next
  assume "SensorsTask_run cfg es (Running s) = Some (t, fxs) \<and> frames_sent fxs = []"
  then show "\<exists>s1. t = Running s1 \<and> (gps_updated s \<longrightarrow> gps_updated s1)
           \<and> (baro_updated s \<longrightarrow> baro_updated s1)"
    using run_flags_kept [of cfg es s t fxs] by blast
qed

theorem updated_flags_consumed_witness:
  "\<exists>s1 fx1 s2 fx2 f pre post.
     SensorsTask_step build_mpu6000 (ObjectUpdated GPSPosition) (Running (calibrated 1))
       = Some (Running ((calibrated 1)\<lparr>gps_updated := True\<rparr>), [])
     \<and> SensorsTask_run build_mpu6000 [Iteration timeout_input]
         (Running ((calibrated 1)\<lparr>gps_updated := True\<rparr>)) = Some (Running s1, fx1)
     \<and> error s1 \<and> gps_updated s1 \<and> frames_sent fx1 = []
     \<and> SensorsTask_loop build_mpu6000 (recovery_input\<lparr>gps_object := [0xAA]\<rparr>) s1 = Some (s2, fx2)
     \<and> \<not> gps_updated s2 \<and> frames_sent fx2 = [f]
     \<and> f = pre @ Byte 0x02 # map Byte [0xAA] @ post"
proof -
  let ?cfg = build_mpu6000
  let ?s0 = "calibrated 1"
  let ?sg = "(calibrated 1)\<lparr>gps_updated := True\<rparr>"
  let ?s1 = "(calibrated 1)\<lparr>gps_updated := True, error := True\<rparr>"
  let ?inp = "recovery_input\<lparr>gps_object := [0xAA]\<rparr>"
  have sink: "pios_com_aux_id ?s0 \<noteq> 0" "pios_com_aux_id ?s1 \<noteq> 0" by (simp_all add: run_defs)
  have r1: "SensorsTask_loop ?cfg timeout_input ?sg = Some (?s1, [AlarmsClear])"
    by (simp add: run_defs)
  have run: "SensorsTask_run ?cfg [Iteration timeout_input] (Running ?sg) = Some (Running ?s1, [AlarmsClear])"
    using r1 by simp
  obtain s2 fx2 where r2: "SensorsTask_loop ?cfg ?inp ?s1 = Some (s2, fx2)" and ok: "\<not> error s2"
    by (simp add: run_defs)
  note part = updated_flags_consumed [where cfg = ?cfg]
  from part [where s = ?s0, THEN conjunct2, THEN conjunct2, THEN conjunct1] sink(1)
  have step: "SensorsTask_step ?cfg (ObjectUpdated GPSPosition) (Running ?s0) = Some (Running ?sg, [])"
    by blast
  from part [where s = ?sg and inp = timeout_input and s' = ?s1 and fx = "[AlarmsClear]",
      THEN conjunct1] r1
  have kept: "gps_updated ?s1 = gps_updated ?sg \<and> frames_sent [AlarmsClear] = []"
    by simp
  from part [where s = ?sg and es = "[Iteration timeout_input]" and t = "Running ?s1"
      and fxs = "[AlarmsClear]", THEN conjunct2, THEN conjunct2, THEN conjunct2] run
  have still: "gps_updated ?s1" by simp
  from part [where s = ?s1 and inp = ?inp and s' = s2 and fx = fx2, THEN conjunct2, THEN conjunct1]
    r2 ok sink(2) still
  obtain f pre post where "\<not> gps_updated s2" "frames_sent fx2 = [f]"
    "f = pre @ Byte 0x02 # map Byte (gps_object ?inp) @ post"
    by blast
  then have "\<not> gps_updated s2 \<and> frames_sent fx2 = [f] \<and> f = pre @ Byte 0x02 # map Byte [0xAA] @ post"
    by simp
  with step run r2 still kept show ?thesis by (intro exI [of _ ?s1]) auto
qed

subsection \<open>Startup self-test\<close>

lemma step_Halted:
  "\<exists>s' fx. SensorsTask_step cfg e (Halted s) = Some (Halted s', fx)
     \<and> AlarmsClear \<notin> set fx \<and> accels_published fx = [] \<and> gyros_published fx = []
     \<and> magnetometer_published fx = [] \<and> frames_sent fx = []
     \<and> count_list fx PIOS_WDG_UpdateFlag = iterations [e]"
  by (cases e) simp_all

lemma iterations_Cons: "iterations (e # es) = iterations [e] + iterations es"
  by (cases e) simp_all

lemma run_Halted:
  "\<exists>s' fx. SensorsTask_run cfg es (Halted s) = Some (Halted s', fx)
     \<and> AlarmsClear \<notin> set fx \<and> accels_published fx = [] \<and> gyros_published fx = []
     \<and> magnetometer_published fx = [] \<and> frames_sent fx = []
     \<and> count_list fx PIOS_WDG_UpdateFlag = iterations es"
proof (induction es arbitrary: s)
  case Nil
  show ?case by simp
next
  case (Cons e es)
  from step_Halted [of cfg e s] obtain s1 fx1 where
    st: "SensorsTask_step cfg e (Halted s) = Some (Halted s1, fx1)"
    and p1: "AlarmsClear \<notin> set fx1" "accels_published fx1 = []" "gyros_published fx1 = []"
      "magnetometer_published fx1 = []" "frames_sent fx1 = []"
      "count_list fx1 PIOS_WDG_UpdateFlag = iterations [e]"
    by blast
  from Cons.IH [of s1] obtain s2 fx2 where
    rn: "SensorsTask_run cfg es (Halted s1) = Some (Halted s2, fx2)"
    and p2: "AlarmsClear \<notin> set fx2" "accels_published fx2 = []" "gyros_published fx2 = []"
      "magnetometer_published fx2 = []" "frames_sent fx2 = []"
      "count_list fx2 PIOS_WDG_UpdateFlag = iterations es"
    by blast
  have "SensorsTask_run cfg (e # es) (Halted s) = Some (Halted s2, fx1 @ fx2)"
    using st rn by simp
  moreover have "AlarmsClear \<notin> set (fx1 @ fx2)" "accels_published (fx1 @ fx2) = []"
    "gyros_published (fx1 @ fx2) = []" "magnetometer_published (fx1 @ fx2) = []"
    "frames_sent (fx1 @ fx2) = []"
    "count_list (fx1 @ fx2) PIOS_WDG_UpdateFlag = iterations (e # es)"
    using p1 p2 iterations_Cons [of e es] by simp_all
  ultimately show ?case by blast
qed

lemma failed_test_detected:
  assumes "(PIOS_INCLUDE_MPU6000 cfg \<and> PIOS_MPU6000_Test tests < 0)
     \<or> (\<not> PIOS_INCLUDE_MPU6000 cfg \<and> PIOS_INCLUDE_L3GD20 cfg \<and> PIOS_L3GD20_Test tests < 0)
     \<or> (PIOS_INCLUDE_BMA180 cfg \<and> PIOS_BMA180_Test tests < 0)
     \<or> PIOS_HMC5883_Test tests < 0"
  shows "accel_test cfg tests < 0 \<or> gyro_test cfg tests < 0 \<or> mag_test tests < 0"
  using assms by (auto simp: accel_test_def gyro_test_def mag_test_def)

text \<open>
  C8. When a self-test that the build runs returns a negative result (the MPU6000's, the
  L3GD20's when it is the gyro, the BMA180's, the HMC5883's), the task sets the alarm to
  critical after the initial clear and enters the idle loop instead of the main loop.
  From there, whatever happens, it stays in the idle loop: each iteration kicks the
  watchdog, nothing is published or sent, and \<^verbatim>\<open>AlarmsClear\<close> is never called again.
\<close>

theorem failed_self_test_halts:
  assumes "(PIOS_INCLUDE_MPU6000 cfg \<and> PIOS_MPU6000_Test tests < 0)
     \<or> (\<not> PIOS_INCLUDE_MPU6000 cfg \<and> PIOS_INCLUDE_L3GD20 cfg \<and> PIOS_L3GD20_Test tests < 0)
     \<or> (PIOS_INCLUDE_BMA180 cfg \<and> PIOS_BMA180_Test tests < 0)
     \<or> PIOS_HMC5883_Test tests < 0"
  shows "\<exists>s1. SensorsTask_start cfg tests cal t0 s = (Halted s1, [AlarmsClear, AlarmsSetCritical])
     \<and> (\<forall>es. \<exists>s2 fx. SensorsTask_run cfg es (Halted s1) = Some (Halted s2, fx)
          \<and> AlarmsClear \<notin> set fx \<and> accels_published fx = [] \<and> gyros_published fx = []
          \<and> magnetometer_published fx = [] \<and> frames_sent fx = []
          \<and> count_list fx PIOS_WDG_UpdateFlag = iterations es)"
proof -
  from failed_test_detected [OF assms]
  have "SensorsTask_start cfg tests cal t0 s
      = (Halted (settingsUpdatedCb cal s), [AlarmsClear, AlarmsSetCritical])"
    by (simp add: SensorsTask_start_def Let_def)
  then show ?thesis using run_Halted by blast
qed

theorem failed_self_test_halts_witness:
  "\<exists>s1 s2 fx. SensorsTask_start build_bma180_l3gd20 l3gd20_fault unit_calibration 0 (statics 1)
       = (Halted s1, [AlarmsClear, AlarmsSetCritical])
     \<and> SensorsTask_run build_bma180_l3gd20
         [Iteration recovery_input, ObjectUpdated GPSPosition, Iteration timeout_input] (Halted s1)
       = Some (Halted s2, fx)
     \<and> AlarmsClear \<notin> set fx \<and> accels_published fx = [] \<and> gyros_published fx = []
     \<and> count_list fx PIOS_WDG_UpdateFlag = 2"
proof -
  have fault: "(PIOS_INCLUDE_MPU6000 build_bma180_l3gd20 \<and> PIOS_MPU6000_Test l3gd20_fault < 0)
     \<or> (\<not> PIOS_INCLUDE_MPU6000 build_bma180_l3gd20 \<and> PIOS_INCLUDE_L3GD20 build_bma180_l3gd20
         \<and> PIOS_L3GD20_Test l3gd20_fault < 0)
     \<or> (PIOS_INCLUDE_BMA180 build_bma180_l3gd20 \<and> PIOS_BMA180_Test l3gd20_fault < 0)
     \<or> PIOS_HMC5883_Test l3gd20_fault < 0"
    by (simp add: build_bma180_l3gd20_def l3gd20_fault_def)
  have n: "iterations [Iteration recovery_input, ObjectUpdated GPSPosition, Iteration timeout_input] = 2"
    by simp
  from failed_self_test_halts [OF fault, of unit_calibration 0 "statics 1"] n
  show ?thesis by metis
qed

end
